theory Spec2Isabelle
  imports Complex_Main "HOL-Library.List_Lexorder" "HOL-Library.Char_ord" "HOL-Library.Multiset"
begin

section \<open>Python values\<close>

text \<open>
  The body of a request is the value \<open>request.get_json()\<close> returns: \<open>None\<close>, a bool,
  an int, a float, a str, a list or a dict. A dict is an association list in insertion
  order (its keys are distinct). Python's ints are unbounded. The arithmetic of floats
  (IEEE doubles) is not fixed here: every function that needs it takes the operations
  as a parameter, so that a theorem holds whatever their rounding is. The same record
  carries the conversions SQLite makes between a float and an INTEGER or a TEXT value.
\<close>

datatype 'f json =
    JNull
  | JBool bool
  | JInt int
  | JFloat 'f
  | JStr string
  | JArr "'f json list"
  | JObj "(string \<times> 'f json) list"

text \<open>A number: an int or a float.\<close>

datatype 'f num = NI int | NF 'f

record 'f float_ops =
  fl_of_int :: "int \<Rightarrow> 'f option"   \<comment> \<open>\<open>float(i)\<close>; \<open>None\<close> is its OverflowError\<close>
  fl_mul :: "'f \<Rightarrow> 'f \<Rightarrow> 'f"
  fl_add :: "'f \<Rightarrow> 'f \<Rightarrow> 'f"
  fl_whole :: "'f \<Rightarrow> int option"      \<comment> \<open>the integer \<open>x\<close> equals, when it is a whole number\<close>
  fl_gt0 :: "'f \<Rightarrow> bool"              \<comment> \<open>\<open>x > 0\<close>, for an \<open>x\<close> that is no whole number\<close>
  fl_neg :: "'f \<Rightarrow> bool"              \<comment> \<open>\<open>x < 0\<close>\<close>
  fl_zero :: "'f \<Rightarrow> bool"             \<comment> \<open>\<open>x == 0\<close>\<close>
  fl_nan :: "'f \<Rightarrow> bool"              \<comment> \<open>\<open>x != x\<close>\<close>
  fl_sql_of_int :: "int \<Rightarrow> 'f"        \<comment> \<open>the REAL a 64-bit INTEGER is converted to\<close>
  fl_sql_text :: "'f \<Rightarrow> string"       \<comment> \<open>the TEXT a REAL is converted to\<close>
  fl_sql_numeric :: "string \<Rightarrow> 'f num option"
    \<comment> \<open>the number a TEXT is converted to, when it looks like one\<close>

text \<open>
  \<open>x > 0\<close> on a float: a float that is a whole number compares with 0 as the integer
  it equals does, and \<open>fl_gt0\<close> decides the others (fractions and infinities).
\<close>

definition fl_pos :: "'f float_ops \<Rightarrow> 'f \<Rightarrow> bool" where
  "fl_pos fo x = (case fl_whole fo x of Some i \<Rightarrow> 0 < i | None \<Rightarrow> fl_gt0 fo x)"

text \<open>The exceptions the handlers can meet; \<open>KeyError\<close> carries the missing key.\<close>

datatype exn =
    KeyError string
  | TypeError
  | AttributeError
  | OverflowError
  | IntegrityError
  | BindError

definition bnd :: "exn + 'a \<Rightarrow> ('a \<Rightarrow> exn + 'b) \<Rightarrow> exn + 'b" where
  "bnd m f = (case m of Inl e \<Rightarrow> Inl e | Inr x \<Rightarrow> f x)"

text \<open>Truth value of an object (\<open>not data\<close>).\<close>

fun py_truthy :: "'f float_ops \<Rightarrow> 'f json \<Rightarrow> bool" where
  "py_truthy fo JNull = False"
| "py_truthy fo (JBool b) = b"
| "py_truthy fo (JInt i) = (i \<noteq> 0)"
| "py_truthy fo (JFloat x) = (\<not> fl_zero fo x)"
| "py_truthy fo (JStr s) = (s \<noteq> [])"
| "py_truthy fo (JArr xs) = (xs \<noteq> [])"
| "py_truthy fo (JObj kvs) = (kvs \<noteq> [])"

fun starts_with :: "string \<Rightarrow> string \<Rightarrow> bool" where
  "starts_with [] hay = True"
| "starts_with (c # cs) [] = False"
| "starts_with (c # cs) (h # hay) = (c = h \<and> starts_with cs hay)"

fun str_contains :: "string \<Rightarrow> string \<Rightarrow> bool" where
  "str_contains needle [] = (needle = [])"
| "str_contains needle (h # hay) = (starts_with needle (h # hay) \<or> str_contains needle hay)"

text \<open>
  \<open>key in data\<close> for a str \<open>key\<close>: membership among a dict's keys, among a list's
  elements, substring test on a str; any other object is not iterable.
\<close>

fun py_contains :: "string \<Rightarrow> 'f json \<Rightarrow> exn + bool" where
  "py_contains key (JObj kvs) = Inr (key \<in> set (map fst kvs))"
| "py_contains key (JArr xs) = Inr (JStr key \<in> set xs)"
| "py_contains key (JStr s) = Inr (str_contains key s)"
| "py_contains key v = Inl TypeError"

text \<open>\<open>obj[key]\<close> for a str \<open>key\<close>: only a dict can be indexed by a str.\<close>

fun py_getitem :: "'f json \<Rightarrow> string \<Rightarrow> exn + 'f json" where
  "py_getitem (JObj kvs) key =
     (case map_of kvs key of None \<Rightarrow> Inl (KeyError key) | Some v \<Rightarrow> Inr v)"
| "py_getitem v key = Inl TypeError"

text \<open>\<open>obj.items()\<close>: only a dict has the method.\<close>

fun py_items :: "'f json \<Rightarrow> exn + (string \<times> 'f json) list" where
  "py_items (JObj kvs) = Inr kvs"
| "py_items v = Inl AttributeError"

text \<open>\<open>v > 0\<close>: defined on numbers (a bool is an int), a TypeError otherwise.\<close>

fun py_gt0 :: "'f float_ops \<Rightarrow> 'f json \<Rightarrow> exn + bool" where
  "py_gt0 fo (JBool b) = Inr b"
| "py_gt0 fo (JInt i) = Inr (0 < i)"
| "py_gt0 fo (JFloat x) = Inr (fl_pos fo x)"
| "py_gt0 fo v = Inl TypeError"

fun as_num :: "'f json \<Rightarrow> 'f num option" where
  "as_num (JBool b) = Some (NI (if b then 1 else 0))"
| "as_num (JInt i) = Some (NI i)"
| "as_num (JFloat x) = Some (NF x)"
| "as_num v = None"

text \<open>A binary operation on two numbers: an int meeting a float is converted first.\<close>

fun num_op :: "'f float_ops \<Rightarrow> (int \<Rightarrow> int \<Rightarrow> int) \<Rightarrow> ('f \<Rightarrow> 'f \<Rightarrow> 'f) \<Rightarrow>
    'f num \<Rightarrow> 'f num \<Rightarrow> exn + 'f json" where
  "num_op fo iop fop (NI i) (NI j) = Inr (JInt (iop i j))"
| "num_op fo iop fop (NF x) (NF y) = Inr (JFloat (fop x y))"
| "num_op fo iop fop (NI i) (NF y) =
     (case fl_of_int fo i of None \<Rightarrow> Inl OverflowError | Some x \<Rightarrow> Inr (JFloat (fop x y)))"
| "num_op fo iop fop (NF x) (NI j) =
     (case fl_of_int fo j of None \<Rightarrow> Inl OverflowError | Some y \<Rightarrow> Inr (JFloat (fop x y)))"

text \<open>Sequence repetition, \<open>n * seq\<close>: a count below 1 gives the empty sequence.\<close>

fun py_repeat :: "int \<Rightarrow> 'f json \<Rightarrow> exn + 'f json" where
  "py_repeat n (JStr s) = Inr (JStr (concat (replicate (nat n) s)))"
| "py_repeat n (JArr xs) = Inr (JArr (concat (replicate (nat n) xs)))"
| "py_repeat n v = Inl TypeError"

definition py_mul :: "'f float_ops \<Rightarrow> 'f json \<Rightarrow> 'f json \<Rightarrow> exn + 'f json" where
  "py_mul fo a b =
     (case (as_num a, as_num b) of
        (Some x, Some y) \<Rightarrow> num_op fo (*) (fl_mul fo) x y
      | (Some (NI n), None) \<Rightarrow> py_repeat n b
      | (None, Some (NI n)) \<Rightarrow> py_repeat n a
      | _ \<Rightarrow> Inl TypeError)"

definition py_add :: "'f float_ops \<Rightarrow> 'f json \<Rightarrow> 'f json \<Rightarrow> exn + 'f json" where
  "py_add fo a b =
     (case (as_num a, as_num b) of
        (Some x, Some y) \<Rightarrow> num_op fo (+) (fl_add fo) x y
      | (None, None) \<Rightarrow>
          (case (a, b) of
             (JStr s, JStr t) \<Rightarrow> Inr (JStr (s @ t))
           | (JArr xs, JArr ys) \<Rightarrow> Inr (JArr (xs @ ys))
           | _ \<Rightarrow> Inl TypeError)
      | _ \<Rightarrow> Inl TypeError)"

section \<open>The store\<close>

text \<open>
  The two tables of \<open>init_db\<close>, each a list of rows in rowid order. A column holds a
  value of one of the storage classes NULL, INTEGER, REAL and TEXT: the value that was
  bound to it, converted as the declared type of the column asks (its affinity). The
  columns that only ever receive a Python int or str, which their declared type
  leaves as it is, are typed so. The surrogate key \<open>orders.id\<close> is never read by the
  program: the position of a row in the list stands for it.
\<close>

datatype 'f sqlval = SNull | SInt int | SReal 'f | SText string

record 'f order_row =
  o_token_number :: int
  o_customer_id :: "'f sqlval"
  o_item_name :: string
  o_quantity :: "'f sqlval"
  o_price :: "'f sqlval"
  o_amount :: "'f sqlval"
  o_timestamp :: string

record 'f token_row =
  t_token_number :: int
  t_customer_id :: "'f sqlval"
  t_timestamp :: string
  t_total_amount :: "'f sqlval"

record 'f store =
  orders :: "'f order_row list"
  tokens :: "'f token_row list"

text \<open>
  Binding a Python object to a statement parameter: \<open>None\<close> is NULL, a bool is the
  integer 0 or 1, an int must fit 64 bits, a NaN is bound as NULL, and a list or a
  dict is not supported.
\<close>

definition bind_int :: "int \<Rightarrow> exn + int" where
  "bind_int i = (if - (2 ^ 63) \<le> i \<and> i < 2 ^ 63 then Inr i else Inl OverflowError)"

fun bind_param :: "'f float_ops \<Rightarrow> 'f json \<Rightarrow> exn + 'f sqlval" where
  "bind_param fo JNull = Inr SNull"
| "bind_param fo (JBool b) = Inr (SInt (if b then 1 else 0))"
| "bind_param fo (JInt i) = bnd (bind_int i) (\<lambda>j. Inr (SInt j))"
| "bind_param fo (JFloat x) = Inr (if fl_nan fo x then SNull else SReal x)"
| "bind_param fo (JStr s) = Inr (SText s)"
| "bind_param fo (JArr xs) = Inl BindError"
| "bind_param fo (JObj kvs) = Inl BindError"

text \<open>The decimal digits of an integer: the TEXT an INTEGER is converted to.\<close>

fun digits :: "nat \<Rightarrow> string" where
  "digits n = (if n < 10 then [''0123456789'' ! n]
               else digits (n div 10) @ [''0123456789'' ! (n mod 10)])"

declare digits.simps [simp del]

definition decimal :: "int \<Rightarrow> string" where
  "decimal i = (if i < 0 then CHR ''-'' # digits (nat (- i)) else digits (nat i))"

text \<open>
  Column affinity: what a bound value becomes when it is stored in a column declared
  TEXT, INTEGER or REAL. A TEXT column holds a number as its text. An INTEGER column
  holds a REAL as an INTEGER when it is a whole number strictly between \<open>-2^63\<close> and
  \<open>2^63 - 1\<close>, and as it is otherwise. A REAL column holds an INTEGER as the REAL it
  is converted to. An INTEGER or REAL column holds a TEXT that looks like a number as
  that number (\<open>fl_sql_numeric\<close>: an INTEGER for an integer literal of 64 bits, a REAL
  for any other), in the form the column gives a number, and any other TEXT as it is.
  NULL is never converted.
\<close>

fun text_affinity :: "'f float_ops \<Rightarrow> 'f sqlval \<Rightarrow> 'f sqlval" where
  "text_affinity fo (SInt i) = SText (decimal i)"
| "text_affinity fo (SReal x) = SText (fl_sql_text fo x)"
| "text_affinity fo v = v"

definition integer_of_real :: "'f float_ops \<Rightarrow> 'f \<Rightarrow> 'f sqlval" where
  "integer_of_real fo x =
     (case fl_whole fo x of
        None \<Rightarrow> SReal x
      | Some i \<Rightarrow> if - (2 ^ 63) < i \<and> i < 2 ^ 63 - 1 then SInt i else SReal x)"

fun integer_affinity :: "'f float_ops \<Rightarrow> 'f sqlval \<Rightarrow> 'f sqlval" where
  "integer_affinity fo (SReal x) = integer_of_real fo x"
| "integer_affinity fo (SText s) =
     (case fl_sql_numeric fo s of
        None \<Rightarrow> SText s
      | Some (NI i) \<Rightarrow> SInt i
      | Some (NF x) \<Rightarrow> integer_of_real fo x)"
| "integer_affinity fo v = v"

fun real_affinity :: "'f float_ops \<Rightarrow> 'f sqlval \<Rightarrow> 'f sqlval" where
  "real_affinity fo (SInt i) = SReal (fl_sql_of_int fo i)"
| "real_affinity fo (SText s) =
     (case fl_sql_numeric fo s of
        None \<Rightarrow> SText s
      | Some (NI i) \<Rightarrow> SReal (fl_sql_of_int fo i)
      | Some (NF x) \<Rightarrow> SReal x)"
| "real_affinity fo v = v"

text \<open>
  \<open>INSERT INTO orders (token_number, customer_id, item_name, quantity, price, amount,
  timestamp) VALUES (?, ?, ?, ?, ?, ?, ?)\<close>: the parameters are bound in order, then
  the NOT NULL constraints are checked, then the row is appended, each value in the
  form its column gives it: \<open>customer_id\<close> is declared TEXT, \<open>quantity\<close> INTEGER,
  \<open>price\<close> and \<open>amount\<close> REAL.
\<close>

definition insert_order :: "'f float_ops \<Rightarrow> 'f store \<Rightarrow> int \<Rightarrow> 'f json \<Rightarrow> string \<Rightarrow>
    'f json \<Rightarrow> 'f json \<Rightarrow> 'f json \<Rightarrow> string \<Rightarrow> exn + 'f store" where
  "insert_order fo s token_number customer_id item_name quantity price amount ts =
     bnd (bind_int token_number) (\<lambda>tn.
     bnd (bind_param fo customer_id) (\<lambda>cid.
     bnd (bind_param fo quantity) (\<lambda>q.
     bnd (bind_param fo price) (\<lambda>p.
     bnd (bind_param fo amount) (\<lambda>a.
       if cid = SNull \<or> q = SNull \<or> p = SNull \<or> a = SNull then Inl IntegrityError
       else Inr (s\<lparr>orders := orders s @
         [\<lparr>o_token_number = tn, o_customer_id = text_affinity fo cid,
           o_item_name = item_name, o_quantity = integer_affinity fo q,
           o_price = real_affinity fo p, o_amount = real_affinity fo a,
           o_timestamp = ts\<rparr>]\<rparr>))))))"

text \<open>
  \<open>INSERT INTO tokens (token_number, customer_id, timestamp, total_amount) VALUES
  (?, ?, ?, ?)\<close>; \<open>token_number\<close> is the primary key, so a number already in the
  table is refused. \<open>customer_id\<close> is declared TEXT and \<open>total_amount\<close> REAL.
\<close>

definition insert_token :: "'f float_ops \<Rightarrow> 'f store \<Rightarrow> int \<Rightarrow> 'f json \<Rightarrow> string \<Rightarrow>
    'f json \<Rightarrow> exn + 'f store" where
  "insert_token fo s token_number customer_id ts total_amount =
     bnd (bind_int token_number) (\<lambda>tn.
     bnd (bind_param fo customer_id) (\<lambda>cid.
     bnd (bind_param fo total_amount) (\<lambda>tot.
       if cid = SNull \<or> tot = SNull then Inl IntegrityError
       else if tn \<in> set (map t_token_number (tokens s)) then Inl IntegrityError
       else Inr (s\<lparr>tokens := tokens s @
         [\<lparr>t_token_number = tn, t_customer_id = text_affinity fo cid, t_timestamp = ts,
           t_total_amount = real_affinity fo tot\<rparr>]\<rparr>))))"

text \<open>\<open>SELECT MAX(token_number) FROM tokens\<close>: NULL (\<open>None\<close>) on an empty table.\<close>

definition select_max_token_number :: "'f token_row list \<Rightarrow> int option" where
  "select_max_token_number ts =
     (case ts of [] \<Rightarrow> None
      | t # rest \<Rightarrow> Some (foldl max (t_token_number t) (map t_token_number rest)))"

text \<open>
  \<open>INSERT OR IGNORE INTO tokens ... VALUES (999, 'SYSTEM', '2000-01-01T00:00:00', 0)\<close>:
  nothing happens when the key 999 is there already. The literal 0 goes into the REAL
  column \<open>total_amount\<close>, which holds it as the REAL 0.0.
\<close>

definition sentinel :: "'f float_ops \<Rightarrow> 'f token_row" where
  "sentinel fo = \<lparr>t_token_number = 999, t_customer_id = SText ''SYSTEM'',
     t_timestamp = ''2000-01-01T00:00:00'', t_total_amount = real_affinity fo (SInt 0)\<rparr>"

definition insert_or_ignore_sentinel :: "'f float_ops \<Rightarrow> 'f store \<Rightarrow> 'f store" where
  "insert_or_ignore_sentinel fo s =
     (if 999 \<in> set (map t_token_number (tokens s)) then s
      else s\<lparr>tokens := tokens s @ [sentinel fo]\<rparr>)"

text \<open>
  \<open>init_db\<close>: \<open>CREATE TABLE IF NOT EXISTS\<close> leaves existing tables as they are, and
  a database file that does not exist yet starts with both tables empty.
\<close>

definition new_database :: "'f store" where
  "new_database = \<lparr>orders = [], tokens = []\<rparr>"

definition init_db :: "'f float_ops \<Rightarrow> 'f store \<Rightarrow> 'f store" where
  "init_db fo s = insert_or_ignore_sentinel fo s"

text \<open>
  The Python object a fetched column value is: an INTEGER is an int, a REAL a float,
  a TEXT a str.
\<close>

fun py_of_sql :: "'f sqlval \<Rightarrow> 'f json" where
  "py_of_sql SNull = JNull"
| "py_of_sql (SInt i) = JInt i"
| "py_of_sql (SReal x) = JFloat x"
| "py_of_sql (SText s) = JStr s"

section \<open>The handlers\<close>

text \<open>
  Each handler is a function from the store before the request to the response and
  the store after it: requests are served one at a time, and the database itself
  never fails (no lock, no disk error), so the only exceptions are those the
  handler's own statements raise. The handlers are modelled from the parsed body on;
  the routing, the CORS headers and the OPTIONS preflight are left out.
\<close>

subsection \<open>\<open>generate_token\<close>\<close>

record 'f order_entry =
  e_item_name :: string
  e_quantity :: "'f json"
  e_price :: "'f json"
  e_amount :: "'f json"

text \<open>The success payload of \<open>generate_token\<close> (its \<open>status\<close> is \<open>success\<close>).\<close>

record 'f receipt =
  r_token_number :: int
  r_timestamp :: string
  r_total :: "'f json"
  r_items :: "'f order_entry list"
  r_customer_id :: "'f json"
  r_formatted_time :: string

record 'f queue_item =
  qi_item_name :: string
  qi_quantity :: "'f sqlval"
  qi_price :: "'f sqlval"

record 'f queue_entry =
  q_token_number :: int
  q_customer_id :: "'f sqlval"
  q_timestamp :: string
  q_total :: "'f sqlval"
  q_items :: "'f queue_item list"

text \<open>
  A response: the 200 of each handler, the 400 with its message, and the 500 with the
  exception whose text it carries.
\<close>

datatype 'f response =
    Ok200 "'f receipt"
  | Err400 string
  | Err500 exn
  | Queue200 "'f queue_entry list"
  | Cleared200

fun status :: "'f response \<Rightarrow> nat" where
  "status (Ok200 r) = 200"
| "status (Err400 m) = 400"
| "status (Err500 e) = 500"
| "status (Queue200 q) = 200"
| "status Cleared200 = 200"

text \<open>
  \<open>not data or 'items' not in data or 'customer_id' not in data\<close>, evaluated from the
  left and stopping at the first true operand.
\<close>

definition invalid_order_data :: "'f float_ops \<Rightarrow> 'f json \<Rightarrow> exn + bool" where
  "invalid_order_data fo data =
     (if \<not> py_truthy fo data then Inr True
      else bnd (py_contains ''items'' data) (\<lambda>has_items.
        if \<not> has_items then Inr True
        else bnd (py_contains ''customer_id'' data) (\<lambda>has_cid. Inr (\<not> has_cid))))"

text \<open>
  \<open>{k: v for k, v in items if v['quantity'] > 0}\<close>: the entries are visited in order
  and the first one whose test raises ends the comprehension.
\<close>

fun valid_items_of :: "'f float_ops \<Rightarrow> (string \<times> 'f json) list \<Rightarrow>
    exn + (string \<times> 'f json) list" where
  "valid_items_of fo [] = Inr []"
| "valid_items_of fo ((k, v) # rest) =
     bnd (py_getitem v ''quantity'') (\<lambda>q.
     bnd (py_gt0 fo q) (\<lambda>keep.
     bnd (valid_items_of fo rest) (\<lambda>kept.
       Inr (if keep then (k, v) # kept else kept))))"

text \<open>
  The loop over \<open>valid_items.items()\<close>, on the connection's state, the list
  \<open>order_entries\<close> and the running \<open>total_amount\<close>.
\<close>

fun insert_items :: "'f float_ops \<Rightarrow> 'f json \<Rightarrow> int \<Rightarrow> string \<Rightarrow> (string \<times> 'f json) list \<Rightarrow>
    'f store \<times> 'f order_entry list \<times> 'f json \<Rightarrow>
    exn + 'f store \<times> 'f order_entry list \<times> 'f json" where
  "insert_items fo data token_number current_time [] acc = Inr acc"
| "insert_items fo data token_number current_time ((item_name, details) # rest)
       (s, order_entries, total_amount) =
     bnd (py_getitem details ''quantity'') (\<lambda>quantity.
     bnd (py_getitem details ''price'') (\<lambda>price.
     bnd (py_mul fo quantity price) (\<lambda>amount.
     bnd (py_getitem data ''customer_id'') (\<lambda>customer_id.
     bnd (insert_order fo s token_number customer_id item_name quantity price amount
            current_time) (\<lambda>s1.
     bnd (py_add fo total_amount amount) (\<lambda>total1.
       insert_items fo data token_number current_time rest
         (s1, order_entries @
            [\<lparr>e_item_name = item_name, e_quantity = quantity, e_price = price,
              e_amount = amount\<rparr>],
          total1)))))))"

text \<open>\<open>(max_token or 999) + 1\<close>: \<open>None\<close> and 0 are the false values of \<open>max_token\<close>.\<close>

definition next_token_number :: "'f store \<Rightarrow> int" where
  "next_token_number s =
     (case select_max_token_number (tokens s) of
        None \<Rightarrow> 999
      | Some max_token \<Rightarrow> if max_token = 0 then 999 else max_token) + 1"

text \<open>
  The body of \<open>with get_db() as conn\<close>, on the connection's state: it yields the state
  to commit and the receipt, or the exception that leaves the block.
\<close>

definition transaction :: "'f float_ops \<Rightarrow> 'f json \<Rightarrow> string \<Rightarrow> string \<Rightarrow>
    (string \<times> 'f json) list \<Rightarrow> 'f store \<Rightarrow> exn + 'f store \<times> 'f receipt" where
  "transaction fo data current_time formatted_time valid_items s =
     (let token_number = next_token_number s in
      bnd (insert_items fo data token_number current_time valid_items (s, [], JInt 0))
        (\<lambda>(s1, order_entries, total_amount).
      bnd (py_getitem data ''customer_id'') (\<lambda>customer_id.
      bnd (insert_token fo s1 token_number customer_id current_time total_amount) (\<lambda>s2.
        Inr (s2, \<lparr>r_token_number = token_number, r_timestamp = current_time,
                  r_total = total_amount, r_items = order_entries,
                  r_customer_id = customer_id, r_formatted_time = formatted_time\<rparr>)))))"

text \<open>
  \<open>generate_token\<close> for a POST: \<open>data\<close> is the parsed body, \<open>current_time\<close> and
  \<open>formatted_time\<close> are the two readings of the clock. An exception inside the
  \<open>with\<close> block rolls the connection back, so the store is the one before the call;
  \<open>except Exception\<close> turns every exception into the 500.
\<close>

definition generate_token :: "'f float_ops \<Rightarrow> 'f json \<Rightarrow> string \<Rightarrow> string \<Rightarrow> 'f store \<Rightarrow>
    'f response \<times> 'f store" where
  "generate_token fo data current_time formatted_time s =
     (case invalid_order_data fo data of
        Inl e \<Rightarrow> (Err500 e, s)
      | Inr True \<Rightarrow> (Err400 ''Invalid order data'', s)
      | Inr False \<Rightarrow>
          (case bnd (py_getitem data ''items'') (\<lambda>items.
                bnd (py_items items) (valid_items_of fo)) of
             Inl e \<Rightarrow> (Err500 e, s)
           | Inr valid_items \<Rightarrow>
               if valid_items = [] then (Err400 ''No items in order'', s)
               else
                 (case transaction fo data current_time formatted_time valid_items s of
                    Inl e \<Rightarrow> (Err500 e, s)
                  | Inr (s', r) \<Rightarrow> (Ok200 r, s'))))"

subsection \<open>\<open>get_queue\<close>\<close>

text \<open>
  \<open>FROM tokens t JOIN orders o ON t.token_number = o.token_number\<close>: a row of the
  result is a pair \<open>(t, o)\<close>, whose columns 0 to 3 are read from \<open>t\<close> and 4 to 6 from
  \<open>o\<close>. \<open>ORDER BY t.timestamp DESC\<close> compares the TEXT values byte by byte; it is a
  stable sort here, which is how rows with equal timestamps leave SQLite's sorter
  (SQL itself leaves their order open).
\<close>

definition join_rows :: "'f store \<Rightarrow> ('f token_row \<times> 'f order_row) list" where
  "join_rows s =
     concat (map (\<lambda>t. map (\<lambda>ol. (t, ol))
       (filter (\<lambda>ol. t_token_number t = o_token_number ol) (orders s))) (tokens s))"

fun insert_desc :: "('f token_row \<times> 'f order_row) \<Rightarrow> ('f token_row \<times> 'f order_row) list \<Rightarrow>
    ('f token_row \<times> 'f order_row) list" where
  "insert_desc x [] = [x]"
| "insert_desc x (y # ys) =
     (if t_timestamp (fst y) \<le> t_timestamp (fst x) then x # y # ys
      else y # insert_desc x ys)"

definition order_by_timestamp_desc :: "('f token_row \<times> 'f order_row) list \<Rightarrow>
    ('f token_row \<times> 'f order_row) list" where
  "order_by_timestamp_desc rows = foldr insert_desc rows []"

definition queue_item_of :: "'f order_row \<Rightarrow> 'f queue_item" where
  "queue_item_of ol = \<lparr>qi_item_name = o_item_name ol, qi_quantity = o_quantity ol,
     qi_price = o_price ol\<rparr>"

text \<open>
  The grouping loop: \<open>unique_orders\<close> is a dict keyed by token number, in insertion
  order; a row of a new token adds an entry at the end, a row of a known token
  appends its item to that entry.
\<close>

fun group_rows :: "('f token_row \<times> 'f order_row) list \<Rightarrow> (int \<times> 'f queue_entry) list \<Rightarrow>
    (int \<times> 'f queue_entry) list" where
  "group_rows [] unique_orders = unique_orders"
| "group_rows ((t, ol) # rest) unique_orders =
     group_rows rest
       (if t_token_number t \<notin> set (map fst unique_orders)
        then unique_orders @
          [(t_token_number t,
            \<lparr>q_token_number = t_token_number t, q_customer_id = t_customer_id t,
              q_timestamp = t_timestamp t, q_total = t_total_amount t,
              q_items = [queue_item_of ol]\<rparr>)]
        else map (\<lambda>(k, e). if k = t_token_number t
                            then (k, e\<lparr>q_items := q_items e @ [queue_item_of ol]\<rparr>)
                            else (k, e)) unique_orders)"

definition queue_of :: "'f store \<Rightarrow> 'f queue_entry list" where
  "queue_of s = map snd (group_rows (order_by_timestamp_desc (join_rows s)) [])"

definition get_queue :: "'f store \<Rightarrow> 'f response \<times> 'f store" where
  "get_queue s = (Queue200 (queue_of s), s)"

subsection \<open>\<open>clear_orders\<close>\<close>

text \<open>The two DELETEs and the INSERT OR IGNORE of one transaction.\<close>

definition clear_orders :: "'f float_ops \<Rightarrow> 'f store \<Rightarrow> 'f response \<times> 'f store" where
  "clear_orders fo s =
     (Cleared200, insert_or_ignore_sentinel fo (s\<lparr>orders := [], tokens := []\<rparr>))"

subsection \<open>Sequences of requests\<close>

datatype 'f request =
    PlaceOrder "'f json" string string
  | GetQueue
  | ClearQueue

fun handle :: "'f float_ops \<Rightarrow> 'f request \<Rightarrow> 'f store \<Rightarrow> 'f response \<times> 'f store" where
  "handle fo (PlaceOrder data current_time formatted_time) s =
     generate_token fo data current_time formatted_time s"
| "handle fo GetQueue s = get_queue s"
| "handle fo ClearQueue s = clear_orders fo s"

text \<open>The responses to a sequence of requests, and the store it leaves.\<close>

fun run :: "'f float_ops \<Rightarrow> 'f request list \<Rightarrow> 'f store \<Rightarrow> 'f response list \<times> 'f store" where
  "run fo [] s = ([], s)"
| "run fo (rq # rqs) s =
     (case handle fo rq s of (resp, s1) \<Rightarrow>
        (case run fo rqs s1 of (resps, s2) \<Rightarrow> (resp # resps, s2)))"

fun receipts :: "'f response list \<Rightarrow> 'f receipt list" where
  "receipts [] = []"
| "receipts (Ok200 r # resps) = r # receipts resps"
| "receipts (resp # resps) = receipts resps"

text \<open>
  A model of the floats for the examples: the doubles that are whole numbers, each
  named by the integer it equals. A sum, a product and a converted integer are rounded
  to 53 significant bits, a tie going to the even neighbour; \<open>excess_bits n\<close> counts the
  low bits of \<open>n\<close> that do not fit. What no example meets is left out: the overflow of
  a sum or a product to an infinity (from \<open>2^1024\<close> on), the exponent SQLite writes in
  the text of a REAL from \<open>10^15\<close> on, and the TEXT values that look like numbers.
\<close>

fun excess_bits :: "nat \<Rightarrow> nat" where
  "excess_bits n = (if n < 2 ^ 53 then 0 else Suc (excess_bits (n div 2)))"

declare excess_bits.simps [simp del]

definition round53 :: "int \<Rightarrow> int" where
  "round53 i =
     (let e = excess_bits (nat \<bar>i\<bar>); q = \<bar>i\<bar> div 2 ^ e; r = \<bar>i\<bar> mod 2 ^ e
      in sgn i * ((if 2 ^ e < 2 * r \<or> (2 ^ e = 2 * r \<and> odd q) then q + 1 else q) * 2 ^ e))"

definition whole_floats :: "int float_ops" where
  "whole_floats =
     \<lparr>fl_of_int = (\<lambda>i. if \<bar>round53 i\<bar> < 2 ^ 1024 then Some (round53 i) else None),
      fl_mul = (\<lambda>x y. round53 (x * y)), fl_add = (\<lambda>x y. round53 (x + y)),
      fl_whole = Some, fl_gt0 = (\<lambda>x. 0 < x), fl_neg = (\<lambda>x. x < 0),
      fl_zero = (\<lambda>x. x = 0), fl_nan = (\<lambda>x. False),
      fl_sql_of_int = round53, fl_sql_text = (\<lambda>x. decimal x @ ''.0''),
      fl_sql_numeric = (\<lambda>s. None)\<rparr>"

section \<open>Vocabulary of the properties\<close>

text \<open>Adding the amounts in order, from a start value, with Python's \<open>+\<close>.\<close>

fun py_sum :: "'f float_ops \<Rightarrow> 'f json \<Rightarrow> 'f json list \<Rightarrow> exn + 'f json" where
  "py_sum fo acc [] = Inr acc"
| "py_sum fo acc (x # xs) = bnd (py_add fo acc x) (\<lambda>acc1. py_sum fo acc1 xs)"




text \<open>A number as a Python object, and as the value a REAL column holds for it.\<close>

fun json_of_num :: "'f num \<Rightarrow> 'f json" where
  "json_of_num (NI i) = JInt i"
| "json_of_num (NF x) = JFloat x"


text \<open>A number below 0: a Python number, and a stored value.\<close>

fun py_lt0 :: "'f float_ops \<Rightarrow> 'f json \<Rightarrow> bool" where
  "py_lt0 fo (JInt i) = (i < 0)"
| "py_lt0 fo (JFloat x) = fl_neg fo x"
| "py_lt0 fo v = False"

fun sql_lt0 :: "'f float_ops \<Rightarrow> 'f sqlval \<Rightarrow> bool" where
  "sql_lt0 fo (SInt i) = (i < 0)"
| "sql_lt0 fo (SReal x) = fl_neg fo x"
| "sql_lt0 fo v = False"

text \<open>
  A response line \<open>e\<close> is the line of the request's entry \<open>(k, v)\<close>: it has the entry's
  name, quantity and price, and its amount is \<open>quantity * price\<close>.
\<close>

definition line_of :: "'f float_ops \<Rightarrow> string \<times> 'f json \<Rightarrow> 'f order_entry \<Rightarrow> bool" where
  "line_of fo kv e \<longleftrightarrow>
     e_item_name e = fst kv \<and>
     py_getitem (snd kv) ''quantity'' = Inr (e_quantity e) \<and>
     py_getitem (snd kv) ''price'' = Inr (e_price e) \<and>
     py_mul fo (e_quantity e) (e_price e) = Inr (e_amount e)"

text \<open>
  A column holds \<open>c\<close> for the Python object \<open>v\<close>: \<open>v\<close> can be bound, what it is bound
  as is not NULL, and \<open>c\<close> is the form the column's affinity gives to it.
\<close>

definition column :: "'f float_ops \<Rightarrow> ('f sqlval \<Rightarrow> 'f sqlval) \<Rightarrow> 'f json \<Rightarrow> 'f sqlval \<Rightarrow> bool"
  where
  "column fo affinity v c \<longleftrightarrow>
     (case bind_param fo v of Inl e \<Rightarrow> False | Inr b \<Rightarrow> b \<noteq> SNull \<and> c = affinity b)"

text \<open>
  A row of \<open>orders\<close> stores the response line \<open>e\<close> of the order with token number
  \<open>tn\<close>, customer \<open>cid\<close> and timestamp \<open>ts\<close>: each column holds the line's value in
  the column's form.
\<close>

definition stored_as :: "'f float_ops \<Rightarrow> int \<Rightarrow> 'f json \<Rightarrow> string \<Rightarrow> 'f order_entry \<Rightarrow>
    'f order_row \<Rightarrow> bool" where
  "stored_as fo tn cid ts e row \<longleftrightarrow>
     o_token_number row = tn \<and>
     column fo (text_affinity fo) cid (o_customer_id row) \<and>
     o_item_name row = e_item_name e \<and>
     column fo (integer_affinity fo) (e_quantity e) (o_quantity row) \<and>
     column fo (real_affinity fo) (e_price e) (o_price row) \<and>
     column fo (real_affinity fo) (e_amount e) (o_amount row) \<and>
     o_timestamp row = ts"

text \<open>The entries of a dict of items that pass the test \<open>quantity > 0\<close>.\<close>

definition positive_quantity :: "'f float_ops \<Rightarrow> 'f json \<Rightarrow> bool" where
  "positive_quantity fo v \<longleftrightarrow> bnd (py_getitem v ''quantity'') (py_gt0 fo) = Inr True"

text \<open>
  A row of \<open>tokens\<close> stores the summary of the receipt \<open>r\<close>: its number, customer,
  timestamp and total, each column holding the value in the column's form.
\<close>

definition summarised_as :: "'f float_ops \<Rightarrow> 'f receipt \<Rightarrow> 'f token_row \<Rightarrow> bool" where
  "summarised_as fo r row \<longleftrightarrow>
     t_token_number row = r_token_number r \<and>
     column fo (text_affinity fo) (r_customer_id r) (t_customer_id row) \<and>
     t_timestamp row = r_timestamp r \<and>
     column fo (real_affinity fo) (r_total r) (t_total_amount row)"

text \<open>
  What every handler keeps true of the store: the sentinel's key 999 is in \<open>tokens\<close>,
  the keys of \<open>tokens\<close> are distinct, and every order line carries a token number from
  1000 on that is the key of a row of \<open>tokens\<close>.
\<close>

definition anchored :: "'f store \<Rightarrow> bool" where
  "anchored s \<longleftrightarrow>
     999 \<in> set (map t_token_number (tokens s)) \<and>
     distinct (map t_token_number (tokens s)) \<and>
     list_all (\<lambda>ol. 1000 \<le> o_token_number ol \<and>
        o_token_number ol \<in> set (map t_token_number (tokens s))) (orders s)"

text \<open>The largest token number in \<open>tokens\<close>.\<close>

definition max_token_number :: "'f store \<Rightarrow> int" where
  "max_token_number s = Max (set (map t_token_number (tokens s)))"

text \<open>The token numbers handed out, in order, by a sequence of requests.\<close>

definition assigned_tokens :: "'f float_ops \<Rightarrow> 'f request list \<Rightarrow> 'f store \<Rightarrow> int list" where
  "assigned_tokens fo rqs s = map r_token_number (receipts (fst (run fo rqs s)))"

text \<open>
  No entry of a dict of items survives the filter: each has a quantity, a number,
  that is not above 0 (so the test raises nothing). The empty dict is the first case.
\<close>

definition no_item_survives :: "'f float_ops \<Rightarrow> (string \<times> 'f json) list \<Rightarrow> bool" where
  "no_item_survives fo kvs \<longleftrightarrow>
     list_all (\<lambda>kv. bnd (py_getitem (snd kv) ''quantity'') (py_gt0 fo) = Inr False) kvs"

text \<open>
  An entry of \<open>items\<close> that makes the handler raise: it is not an object, or it has
  no \<open>quantity\<close>, or its quantity is above 0 and it has no \<open>price\<close>. A value of
  \<open>items\<close> is malformed when it is not an object or has such an entry.
\<close>

fun malformed_entry :: "'f float_ops \<Rightarrow> 'f json \<Rightarrow> bool" where
  "malformed_entry fo (JObj details) \<longleftrightarrow>
     map_of details ''quantity'' = None \<or>
     (positive_quantity fo (JObj details) \<and> map_of details ''price'' = None)"
| "malformed_entry fo v \<longleftrightarrow> True"

fun malformed_items :: "'f float_ops \<Rightarrow> 'f json \<Rightarrow> bool" where
  "malformed_items fo (JObj kvs) \<longleftrightarrow> list_ex (\<lambda>kv. malformed_entry fo (snd kv)) kvs"
| "malformed_items fo v \<longleftrightarrow> True"



section \<open>Example requests\<close>

text \<open>The requests of the concrete scenarios, and the store right after start-up.\<close>

definition tea_order :: "int json" where
  "tea_order = JObj [(''customer_id'', JStr ''c1''),
     (''items'', JObj [(''tea'', JObj [(''quantity'', JInt 2), (''price'', JInt 10)]),
                       (''coffee'', JObj [(''quantity'', JInt 0), (''price'', JInt 20)])])]"

definition second_order :: "int json" where
  "second_order = JObj [(''customer_id'', JStr ''c2''),
     (''items'', JObj [(''tea'', JObj [(''quantity'', JInt 2), (''price'', JInt 10)]),
                       (''coffee'', JObj [(''quantity'', JInt 0), (''price'', JInt 20)])])]"

definition started :: "int store" where
  "started = init_db whole_floats new_database"

definition after_first :: "int store" where
  "after_first = snd (generate_token whole_floats tea_order ''2024-01-01T10:00:00''
     ''01 Jan 2024, 10:00 AM'' started)"

definition two_orders :: "int request list" where
  "two_orders =
     [PlaceOrder tea_order ''2024-01-01T10:00:00'' ''01 Jan 2024, 10:00 AM'',
      PlaceOrder second_order ''2024-01-01T10:01:00'' ''01 Jan 2024, 10:01 AM'']"

definition order_clear_order :: "int request list" where
  "order_clear_order =
     [PlaceOrder tea_order ''2024-01-01T10:00:00'' ''01 Jan 2024, 10:00 AM'',
      ClearQueue,
      PlaceOrder second_order ''2024-01-01T10:01:00'' ''01 Jan 2024, 10:01 AM'']"

definition negative_price_order :: "int json" where
  "negative_price_order = JObj [(''customer_id'', JStr ''c1''),
     (''items'', JObj [(''tea'', JObj [(''quantity'', JInt 1), (''price'', JInt (- 5))])])]"

definition empty_customer_order :: "int json" where
  "empty_customer_order = JObj [(''customer_id'', JStr ''''),
     (''items'', JObj [(''tea'', JObj [(''quantity'', JInt 1), (''price'', JInt 10)])])]"

definition all_zero_order :: "int json" where
  "all_zero_order = JObj [(''customer_id'', JStr ''c1''),
     (''items'', JObj [(''tea'', JObj [(''quantity'', JInt 0), (''price'', JInt 10)])])]"

definition missing_price_order :: "int json" where
  "missing_price_order = JObj [(''customer_id'', JStr ''c1''),
     (''items'', JObj [(''tea'', JObj [(''quantity'', JInt 2), (''price'', JInt 10)]),
                       (''coffee'', JObj [(''quantity'', JInt 0)])])]"

definition missing_quantity_order :: "int json" where
  "missing_quantity_order = JObj [(''customer_id'', JStr ''c1''),
     (''items'', JObj [(''tea'', JObj [(''price'', JInt 10)])])]"



text \<open>
  An order whose customer is the int 5 and whose quantity is the float 2.0: the TEXT
  column holds the customer as \<open>'5'\<close>, the INTEGER column the quantity as 2, the REAL
  columns the price 10 as 10.0 and the amount and total 20.0 as they are.
\<close>

definition float_quantity_order :: "int json" where
  "float_quantity_order = JObj [(''customer_id'', JInt 5),
     (''items'', JObj [(''tea'', JObj [(''quantity'', JFloat 2), (''price'', JInt 10)])])]"

section \<open>Properties of the handlers\<close>

subsection \<open>Exceptions, the maximum, the inserts\<close>

lemma bnd_Inr_iff: "bnd m f = Inr y \<longleftrightarrow> (\<exists>x. m = Inr x \<and> f x = Inr y)"
  by (cases m) (simp_all add: bnd_def)

lemma bnd_Inl [simp]: "bnd (Inl e) f = Inl e"
  by (simp add: bnd_def)

lemma bnd_Inr [simp]: "bnd (Inr x) f = f x"
  by (simp add: bnd_def)

lemma foldl_max_Max: "foldl max (a::int) xs = Max (insert a (set xs))"
proof (induction xs arbitrary: a)
  case Nil
  show ?case by simp
next
  case (Cons x xs)
  have "Max (insert (max a x) (set xs)) = Max (insert a (insert x (set xs)))"
    by (cases "set xs = {}") (simp_all add: max.assoc)
  with Cons show ?case by simp
qed

lemma select_max_token_number_Max:
  "ts \<noteq> [] \<Longrightarrow> select_max_token_number ts = Some (Max (set (map t_token_number ts)))"
  by (cases ts) (simp_all add: select_max_token_number_def foldl_max_Max)

lemma column_iff:
  "column fo affinity v c \<longleftrightarrow> (\<exists>b. bind_param fo v = Inr b \<and> b \<noteq> SNull \<and> c = affinity b)"
  by (simp add: column_def split: sum.splits)

lemma insert_order_Inr:
  "insert_order fo s tn cid nm q p a ts = Inr s1 \<Longrightarrow>
   \<exists>row. s1 = s\<lparr>orders := orders s @ [row]\<rparr> \<and>
     stored_as fo tn cid ts \<lparr>e_item_name = nm, e_quantity = q, e_price = p, e_amount = a\<rparr> row"
  by (auto simp: insert_order_def bnd_Inr_iff bind_int_def stored_as_def column_iff
      split: if_splits)

lemma insert_token_Inr:
  "insert_token fo s tn cid ts tot = Inr s1 \<Longrightarrow>
   \<exists>row. s1 = s\<lparr>tokens := tokens s @ [row]\<rparr> \<and> t_token_number row = tn \<and>
     column fo (text_affinity fo) cid (t_customer_id row) \<and> t_timestamp row = ts \<and>
     column fo (real_affinity fo) tot (t_total_amount row) \<and>
     tn \<notin> set (map t_token_number (tokens s))"
  by (auto simp: insert_token_def bnd_Inr_iff bind_int_def column_iff split: if_splits)

lemma py_sum_append:
  "py_sum fo acc (xs @ ys) = bnd (py_sum fo acc xs) (\<lambda>a. py_sum fo a ys)"
  by (induction xs arbitrary: acc) (simp_all add: bnd_def split: sum.splits)

lemma insert_items_Inr:
  "insert_items fo data tn ct items (s, es, tot) = Inr (s1, es1, tot1) \<Longrightarrow>
   py_getitem data ''customer_id'' = Inr cid \<Longrightarrow>
   \<exists>rows new. s1 = s\<lparr>orders := orders s @ rows\<rparr> \<and> es1 = es @ new \<and>
     list_all2 (line_of fo) items new \<and>
     list_all2 (stored_as fo tn cid ct) new rows \<and>
     py_sum fo tot (map e_amount new) = Inr tot1"
proof (induction items arbitrary: s es tot)
  case Nil
  then show ?case by simp
next
  case (Cons kv items)
  obtain k v where kv: "kv = (k, v)" by (cases kv)
  from Cons.prems(1) obtain q p a sa tota where
    q: "py_getitem v ''quantity'' = Inr q" and p: "py_getitem v ''price'' = Inr p"
    and a: "py_mul fo q p = Inr a"
    and sa: "insert_order fo s tn cid k q p a ct = Inr sa"
    and tota: "py_add fo tot a = Inr tota"
    and rest: "insert_items fo data tn ct items
      (sa, es @ [\<lparr>e_item_name = k, e_quantity = q, e_price = p, e_amount = a\<rparr>], tota) =
      Inr (s1, es1, tot1)"
    using Cons.prems(2) by (auto simp: kv bnd_Inr_iff)
  let ?e = "\<lparr>e_item_name = k, e_quantity = q, e_price = p, e_amount = a\<rparr>"
  from insert_order_Inr [OF sa] obtain row where
    row: "sa = s\<lparr>orders := orders s @ [row]\<rparr>" "stored_as fo tn cid ct ?e row"
    by blast
  from Cons.IH [OF rest Cons.prems(2)] obtain rows new where
    IH: "s1 = sa\<lparr>orders := orders sa @ rows\<rparr>" "es1 = (es @ [?e]) @ new"
      "list_all2 (line_of fo) items new" "list_all2 (stored_as fo tn cid ct) new rows"
      "py_sum fo tota (map e_amount new) = Inr tot1"
    by blast
  have "s1 = s\<lparr>orders := orders s @ (row # rows)\<rparr>"
    using IH(1) row(1) by simp
  moreover have "es1 = es @ (?e # new)"
    using IH(2) by simp
  moreover have "list_all2 (line_of fo) (kv # items) (?e # new)"
    using IH(3) q p a by (simp add: kv line_of_def)
  moreover have "list_all2 (stored_as fo tn cid ct) (?e # new) (row # rows)"
    using IH(4) row(2) by simp
  moreover have "py_sum fo tot (map e_amount (?e # new)) = Inr tot1"
    using IH(5) tota by simp
  ultimately show ?case by blast
qed

subsection \<open>What a call of \<open>generate_token\<close> does\<close>

lemma valid_items_of_Inr:
  "valid_items_of fo kvs = Inr vs \<Longrightarrow> vs = filter (\<lambda>kv. positive_quantity fo (snd kv)) kvs"
proof (induction kvs arbitrary: vs)
  case Nil
  then show ?case by simp
next
  case (Cons kv kvs)
  obtain k v where kv: "kv = (k, v)" by (cases kv)
  from Cons.prems obtain q keep kept where
    q: "py_getitem v ''quantity'' = Inr q" and keep: "py_gt0 fo q = Inr keep"
    and kept: "valid_items_of fo kvs = Inr kept"
    and vs: "vs = (if keep then (k, v) # kept else kept)"
    by (auto simp: kv bnd_Inr_iff)
  have "positive_quantity fo v = keep"
    using q keep by (simp add: positive_quantity_def)
  with Cons.IH [OF kept] vs show ?case by (simp add: kv)
qed

lemma generate_token_Ok:
  assumes "generate_token fo data ct ft s = (Ok200 r, s')"
  shows "\<exists>kvs rows trow.
    data \<noteq> JNull \<and>
    py_getitem data ''items'' = Inr (JObj kvs) \<and>
    py_getitem data ''customer_id'' = Inr (r_customer_id r) \<and>
    valid_items_of fo kvs = Inr (filter (\<lambda>kv. positive_quantity fo (snd kv)) kvs) \<and>
    filter (\<lambda>kv. positive_quantity fo (snd kv)) kvs \<noteq> [] \<and>
    r_token_number r = next_token_number s \<and> r_timestamp r = ct \<and>
    r_formatted_time r = ft \<and>
    list_all2 (line_of fo) (filter (\<lambda>kv. positive_quantity fo (snd kv)) kvs) (r_items r) \<and>
    list_all2 (stored_as fo (r_token_number r) (r_customer_id r) ct) (r_items r) rows \<and>
    py_sum fo (JInt 0) (map e_amount (r_items r)) = Inr (r_total r) \<and>
    summarised_as fo r trow \<and>
    next_token_number s \<notin> set (map t_token_number (tokens s)) \<and>
    s' = s\<lparr>orders := orders s @ rows, tokens := tokens s @ [trow]\<rparr>"
proof -
  from assms obtain vs where
    vs: "bnd (py_getitem data ''items'') (\<lambda>items. bnd (py_items items) (valid_items_of fo)) = Inr vs"
    and ne: "vs \<noteq> []"
    and tr: "transaction fo data ct ft vs s = Inr (s', r)"
    by (auto simp: generate_token_def split: sum.splits bool.splits if_splits)
  from vs obtain items kvs where items: "py_getitem data ''items'' = Inr items"
    and kvs0: "py_items items = Inr kvs" and v: "valid_items_of fo kvs = Inr vs"
    by (auto simp: bnd_Inr_iff)
  from kvs0 have it: "items = JObj kvs" by (cases items) simp_all
  have vsf: "vs = filter (\<lambda>kv. positive_quantity fo (snd kv)) kvs"
    using valid_items_of_Inr [OF v] .
  let ?tn = "next_token_number s"
  from tr obtain s1 es tot cid s2 where
    ins: "insert_items fo data ?tn ct vs (s, [], JInt 0) = Inr (s1, es, tot)"
    and cid: "py_getitem data ''customer_id'' = Inr cid"
    and tok: "insert_token fo s1 ?tn cid ct tot = Inr s2"
    and res: "s' = s2" "r = \<lparr>r_token_number = ?tn, r_timestamp = ct, r_total = tot,
        r_items = es, r_customer_id = cid, r_formatted_time = ft\<rparr>"
    by (auto simp: transaction_def Let_def bnd_Inr_iff)
  from insert_items_Inr [OF ins cid] obtain rows where
    rows: "s1 = s\<lparr>orders := orders s @ rows\<rparr>" "list_all2 (line_of fo) vs es"
      "list_all2 (stored_as fo ?tn cid ct) es rows"
      "py_sum fo (JInt 0) (map e_amount es) = Inr tot"
    by auto
  from insert_token_Inr [OF tok] obtain trow where
    trow: "s2 = s1\<lparr>tokens := tokens s1 @ [trow]\<rparr>" "t_token_number trow = ?tn"
      "column fo (text_affinity fo) cid (t_customer_id trow)" "t_timestamp trow = ct"
      "column fo (real_affinity fo) tot (t_total_amount trow)"
      "?tn \<notin> set (map t_token_number (tokens s1))"
    by blast
  have "data \<noteq> JNull" using items by auto
  moreover have "summarised_as fo r trow"
    using trow res(2) by (simp add: summarised_as_def)
  moreover have "s' = s\<lparr>orders := orders s @ rows, tokens := tokens s @ [trow]\<rparr>"
    using res(1) trow(1) rows(1) by simp
  moreover have "?tn \<notin> set (map t_token_number (tokens s))"
    using trow(6) rows(1) by simp
  ultimately show ?thesis
    using items it cid v vsf ne rows res(2) by auto
qed

lemma generate_token_cases:
  "(\<exists>r s'. generate_token fo data ct ft s = (Ok200 r, s')) \<or>
   (\<exists>m. generate_token fo data ct ft s = (Err400 m, s)) \<or>
   (\<exists>e. generate_token fo data ct ft s = (Err500 e, s))"
  by (auto simp: generate_token_def split: sum.splits bool.splits if_splits)

lemma generate_token_failure:
  "generate_token fo data ct ft s = (resp, s') \<Longrightarrow> \<forall>r. resp \<noteq> Ok200 r \<Longrightarrow> s' = s"
  using generate_token_cases [of fo data ct ft s] by auto

subsection \<open>The anchor of the numbering\<close>

lemma next_token_number_anchored:
  assumes "anchored s"
  shows "next_token_number s = max_token_number s + 1" and "999 \<le> max_token_number s"
proof -
  from assms have ne: "tokens s \<noteq> []" and mem: "999 \<in> set (map t_token_number (tokens s))"
    by (auto simp: anchored_def)
  from mem show ge: "999 \<le> max_token_number s"
    unfolding max_token_number_def by (intro Max_ge) auto
  from ge show "next_token_number s = max_token_number s + 1"
    by (simp add: next_token_number_def select_max_token_number_Max [OF ne]
        max_token_number_def)
qed

lemma anchored_init: "anchored (init_db fo new_database)"
  by (simp add: anchored_def init_db_def new_database_def insert_or_ignore_sentinel_def
      sentinel_def)

lemma clear_orders_eq:
  "clear_orders fo s = (Cleared200, \<lparr>orders = [], tokens = [sentinel fo]\<rparr>)"
  by (simp add: clear_orders_def insert_or_ignore_sentinel_def)

lemma init_db_new: "init_db fo new_database = \<lparr>orders = [], tokens = [sentinel fo]\<rparr>"
  by (simp add: init_db_def new_database_def insert_or_ignore_sentinel_def)

lemma anchored_clear: "anchored (snd (clear_orders fo s))"
  by (simp add: clear_orders_eq anchored_def sentinel_def)

lemma stored_as_token_number:
  "list_all2 (stored_as fo tn cid ts) es rows \<Longrightarrow> row \<in> set rows \<Longrightarrow>
   o_token_number row = tn"
  by (auto simp: list_all2_conv_all_nth in_set_conv_nth stored_as_def)

lemma generate_token_anchored:
  assumes "anchored s" and "generate_token fo data ct ft s = (resp, s')"
  shows "anchored s'"
proof (cases "\<exists>r. resp = Ok200 r")
  case False
  with generate_token_failure [OF assms(2)] assms(1) show ?thesis by simp
next
  case True
  then obtain r where r: "resp = Ok200 r" by blast
  from generate_token_Ok [OF assms(2) [unfolded r]] obtain rows trow where
    tn: "r_token_number r = next_token_number s"
    and rows: "list_all2 (stored_as fo (r_token_number r) (r_customer_id r) ct) (r_items r) rows"
    and trow: "summarised_as fo r trow"
    and fresh: "next_token_number s \<notin> set (map t_token_number (tokens s))"
    and s': "s' = s\<lparr>orders := orders s @ rows, tokens := tokens s @ [trow]\<rparr>"
    by blast
  from next_token_number_anchored [OF assms(1)] tn have ge: "1000 \<le> r_token_number r"
    by simp
  have key: "t_token_number trow = r_token_number r"
    using trow by (simp add: summarised_as_def)
  have "\<forall>row \<in> set rows. o_token_number row = r_token_number r"
    using stored_as_token_number [OF rows] by blast
  with ge key have "list_all (\<lambda>ol. 1000 \<le> o_token_number ol \<and>
      o_token_number ol \<in> set (map t_token_number (tokens s @ [trow]))) rows"
    by (simp add: list_all_iff)
  moreover have "list_all (\<lambda>ol. 1000 \<le> o_token_number ol \<and>
      o_token_number ol \<in> set (map t_token_number (tokens s @ [trow]))) (orders s)"
    using assms(1) by (auto simp: anchored_def list_all_iff)
  moreover have "distinct (map t_token_number (tokens s @ [trow]))"
    using assms(1) fresh key tn by (simp add: anchored_def)
  ultimately show ?thesis
    using assms(1) by (simp add: anchored_def s')
qed

lemma handle_anchored:
  "anchored s \<Longrightarrow> anchored (snd (handle fo rq s))"
proof (cases rq)
  case (PlaceOrder data ct ft)
  assume "anchored s"
  then show ?thesis
    using generate_token_anchored [of s fo data ct ft] PlaceOrder
    by (cases "generate_token fo data ct ft s") simp
next
  case GetQueue
  assume "anchored s"
  then show ?thesis using GetQueue by (simp add: get_queue_def)
next
  case ClearQueue
  then show ?thesis by (simp add: anchored_clear)
qed

lemma run_Cons:
  "run fo (rq # rqs) s =
     (fst (handle fo rq s) # fst (run fo rqs (snd (handle fo rq s))),
      snd (run fo rqs (snd (handle fo rq s))))"
  by (simp split: prod.splits)


lemma run_anchored: "anchored s \<Longrightarrow> anchored (snd (run fo rqs s))"
  by (induction rqs arbitrary: s) (simp_all add: run_Cons handle_anchored del: run.simps(2))

lemma reachable_anchored: "anchored (snd (run fo rqs (init_db fo new_database)))"
  by (rule run_anchored [OF anchored_init])

subsection \<open>The handlers on the example requests\<close>

lemma round53_small: "\<bar>i\<bar> < 2 ^ 53 \<Longrightarrow> round53 i = i"
proof -
  assume "\<bar>i\<bar> < 2 ^ 53"
  then have "nat \<bar>i\<bar> < nat (2 ^ 53)" by (simp add: nat_less_iff)
  then have "nat \<bar>i\<bar> < 2 ^ 53" by simp
  then have "excess_bits (nat \<bar>i\<bar>) = 0" by (subst excess_bits.simps) simp
  then show ?thesis by (simp add: round53_def Let_def mult_sgn_abs)
qed

lemmas eval_simps = generate_token_def invalid_order_data_def transaction_def
  next_token_number_def select_max_token_number_def insert_order_def insert_token_def
  bind_int_def py_mul_def py_add_def sentinel_def whole_floats_def round53_small

lemma started_eq: "started = \<lparr>orders = [], tokens = [sentinel whole_floats]\<rparr>"
  by (simp add: started_def init_db_new)

lemma tea_first:
  "generate_token whole_floats tea_order ''2024-01-01T10:00:00'' ''01 Jan 2024, 10:00 AM''
     \<lparr>orders = [], tokens = [sentinel whole_floats]\<rparr> =
   (Ok200 \<lparr>r_token_number = 1000, r_timestamp = ''2024-01-01T10:00:00'', r_total = JInt 20,
       r_items = [\<lparr>e_item_name = ''tea'', e_quantity = JInt 2, e_price = JInt 10,
                   e_amount = JInt 20\<rparr>],
       r_customer_id = JStr ''c1'', r_formatted_time = ''01 Jan 2024, 10:00 AM''\<rparr>,
    \<lparr>orders = [\<lparr>o_token_number = 1000, o_customer_id = SText ''c1'', o_item_name = ''tea'',
         o_quantity = SInt 2, o_price = SReal 10, o_amount = SReal 20,
         o_timestamp = ''2024-01-01T10:00:00''\<rparr>],
     tokens = [sentinel whole_floats,
        \<lparr>t_token_number = 1000, t_customer_id = SText ''c1'',
          t_timestamp = ''2024-01-01T10:00:00'', t_total_amount = SReal 20\<rparr>]\<rparr>)"
  by (simp add: tea_order_def eval_simps)

lemma after_first_eq:
  "after_first =
    \<lparr>orders = [\<lparr>o_token_number = 1000, o_customer_id = SText ''c1'', o_item_name = ''tea'',
         o_quantity = SInt 2, o_price = SReal 10, o_amount = SReal 20,
         o_timestamp = ''2024-01-01T10:00:00''\<rparr>],
     tokens = [sentinel whole_floats,
        \<lparr>t_token_number = 1000, t_customer_id = SText ''c1'',
          t_timestamp = ''2024-01-01T10:00:00'', t_total_amount = SReal 20\<rparr>]\<rparr>"
  by (simp add: after_first_def started_eq tea_first)

lemma second_after_first:
  "generate_token whole_floats second_order ''2024-01-01T10:01:00'' ''01 Jan 2024, 10:01 AM''
     after_first =
   (Ok200 \<lparr>r_token_number = 1001, r_timestamp = ''2024-01-01T10:01:00'', r_total = JInt 20,
       r_items = [\<lparr>e_item_name = ''tea'', e_quantity = JInt 2, e_price = JInt 10,
                   e_amount = JInt 20\<rparr>],
       r_customer_id = JStr ''c2'', r_formatted_time = ''01 Jan 2024, 10:01 AM''\<rparr>,
    \<lparr>orders = [\<lparr>o_token_number = 1000, o_customer_id = SText ''c1'', o_item_name = ''tea'',
         o_quantity = SInt 2, o_price = SReal 10, o_amount = SReal 20,
         o_timestamp = ''2024-01-01T10:00:00''\<rparr>,
        \<lparr>o_token_number = 1001, o_customer_id = SText ''c2'', o_item_name = ''tea'',
         o_quantity = SInt 2, o_price = SReal 10, o_amount = SReal 20,
         o_timestamp = ''2024-01-01T10:01:00''\<rparr>],
     tokens = [sentinel whole_floats,
        \<lparr>t_token_number = 1000, t_customer_id = SText ''c1'',
          t_timestamp = ''2024-01-01T10:00:00'', t_total_amount = SReal 20\<rparr>,
        \<lparr>t_token_number = 1001, t_customer_id = SText ''c2'',
          t_timestamp = ''2024-01-01T10:01:00'', t_total_amount = SReal 20\<rparr>]\<rparr>)"
  by (simp add: after_first_eq second_order_def eval_simps)

lemma tea_started:
  "generate_token whole_floats tea_order ''2024-01-01T10:00:00'' ''01 Jan 2024, 10:00 AM''
     started =
   (Ok200 \<lparr>r_token_number = 1000, r_timestamp = ''2024-01-01T10:00:00'', r_total = JInt 20,
       r_items = [\<lparr>e_item_name = ''tea'', e_quantity = JInt 2, e_price = JInt 10,
                   e_amount = JInt 20\<rparr>],
       r_customer_id = JStr ''c1'', r_formatted_time = ''01 Jan 2024, 10:00 AM''\<rparr>,
    after_first)"
  by (simp add: started_eq tea_first after_first_eq)

lemma assigned_two_orders: "assigned_tokens whole_floats two_orders started = [1000, 1001]"
  by (simp add: two_orders_def assigned_tokens_def tea_started second_after_first)

lemma max_token_number_started: "max_token_number started = 999"
  by (simp add: started_eq max_token_number_def sentinel_def)

lemma after_two_eq:
  "snd (run whole_floats two_orders started) =
    \<lparr>orders = [\<lparr>o_token_number = 1000, o_customer_id = SText ''c1'', o_item_name = ''tea'',
         o_quantity = SInt 2, o_price = SReal 10, o_amount = SReal 20,
         o_timestamp = ''2024-01-01T10:00:00''\<rparr>,
        \<lparr>o_token_number = 1001, o_customer_id = SText ''c2'', o_item_name = ''tea'',
         o_quantity = SInt 2, o_price = SReal 10, o_amount = SReal 20,
         o_timestamp = ''2024-01-01T10:01:00''\<rparr>],
     tokens = [sentinel whole_floats,
        \<lparr>t_token_number = 1000, t_customer_id = SText ''c1'',
          t_timestamp = ''2024-01-01T10:00:00'', t_total_amount = SReal 20\<rparr>,
        \<lparr>t_token_number = 1001, t_customer_id = SText ''c2'',
          t_timestamp = ''2024-01-01T10:01:00'', t_total_amount = SReal 20\<rparr>]\<rparr>"
  by (simp add: two_orders_def tea_started second_after_first)

lemma queue_after_two:
  "queue_of (snd (run whole_floats two_orders started)) =
     [\<lparr>q_token_number = 1001, q_customer_id = SText ''c2'',
        q_timestamp = ''2024-01-01T10:01:00'', q_total = SReal 20,
        q_items = [\<lparr>qi_item_name = ''tea'', qi_quantity = SInt 2, qi_price = SReal 10\<rparr>]\<rparr>,
      \<lparr>q_token_number = 1000, q_customer_id = SText ''c1'',
        q_timestamp = ''2024-01-01T10:00:00'', q_total = SReal 20,
        q_items = [\<lparr>qi_item_name = ''tea'', qi_quantity = SInt 2, qi_price = SReal 10\<rparr>]\<rparr>]"
  by (simp add: after_two_eq queue_of_def join_rows_def order_by_timestamp_desc_def
      queue_item_of_def sentinel_def)

lemma float_quantity_started:
  "generate_token whole_floats float_quantity_order ''2024-01-01T10:00:00''
     ''01 Jan 2024, 10:00 AM'' started =
   (Ok200 \<lparr>r_token_number = 1000, r_timestamp = ''2024-01-01T10:00:00'', r_total = JFloat 20,
       r_items = [\<lparr>e_item_name = ''tea'', e_quantity = JFloat 2, e_price = JInt 10,
                   e_amount = JFloat 20\<rparr>],
       r_customer_id = JInt 5, r_formatted_time = ''01 Jan 2024, 10:00 AM''\<rparr>,
    \<lparr>orders = [\<lparr>o_token_number = 1000, o_customer_id = SText ''5'', o_item_name = ''tea'',
         o_quantity = SInt 2, o_price = SReal 10, o_amount = SReal 20,
         o_timestamp = ''2024-01-01T10:00:00''\<rparr>],
     tokens = [\<lparr>t_token_number = 999, t_customer_id = SText ''SYSTEM'',
          t_timestamp = ''2000-01-01T00:00:00'', t_total_amount = SReal 0\<rparr>,
        \<lparr>t_token_number = 1000, t_customer_id = SText ''5'',
          t_timestamp = ''2024-01-01T10:00:00'', t_total_amount = SReal 20\<rparr>]\<rparr>)"
  by (simp add: started_eq float_quantity_order_def eval_simps fl_pos_def integer_of_real_def
      decimal_def digits.simps)

subsection \<open>Clearing\<close>

text \<open>
  C7. \<open>clear_orders\<close> always succeeds and leaves both tables empty but for the sentinel
  row (999, 'SYSTEM', '2000-01-01T00:00:00', 0) of \<open>tokens\<close>, whose total the REAL column
  holds as 0.0, whatever the store was: the three statements are one step of the store. A second clear changes nothing
  more, and a successful \<open>generate_token\<close> on the cleared store is given the number
  1000.
\<close>

theorem clear_orders_resets:
  "clear_orders fo s =
     (Cleared200,
      \<lparr>orders = [],
       tokens = [\<lparr>t_token_number = 999, t_customer_id = SText ''SYSTEM'',
                  t_timestamp = ''2000-01-01T00:00:00'',
                  t_total_amount = SReal (fl_sql_of_int fo 0)\<rparr>]\<rparr>) \<and>
   clear_orders fo (snd (clear_orders fo s)) = clear_orders fo s \<and>
   (\<forall>fo' data ct ft r s'.
      generate_token fo' data ct ft (snd (clear_orders fo s)) = (Ok200 r, s') \<longrightarrow>
      r_token_number r = 1000)"
proof (intro conjI allI impI)
  show "clear_orders fo s =
     (Cleared200,
      \<lparr>orders = [],
       tokens = [\<lparr>t_token_number = 999, t_customer_id = SText ''SYSTEM'',
                  t_timestamp = ''2000-01-01T00:00:00'',
                  t_total_amount = SReal (fl_sql_of_int fo 0)\<rparr>]\<rparr>)"
    by (simp add: clear_orders_eq sentinel_def)
  show "clear_orders fo (snd (clear_orders fo s)) = clear_orders fo s"
    by (simp add: clear_orders_eq)
next
  fix fo' :: "'a float_ops" and data ct ft r s'
  assume ok: "generate_token fo' data ct ft (snd (clear_orders fo s)) = (Ok200 r, s')"
  have a: "anchored (snd (clear_orders fo s))" by (rule anchored_clear)
  have "max_token_number (snd (clear_orders fo s)) = 999"
    by (simp add: clear_orders_eq max_token_number_def sentinel_def)
  with next_token_number_anchored(1) [OF a] generate_token_Ok [OF ok]
  show "r_token_number r = 1000" by auto
qed

theorem clear_orders_resets_witness:
  "clear_orders whole_floats after_first = (Cleared200, started) \<and>
   clear_orders whole_floats (snd (clear_orders whole_floats after_first)) =
     clear_orders whole_floats after_first \<and>
   (\<exists>r s'. generate_token whole_floats tea_order ''2024-01-01T10:05:00''
       ''01 Jan 2024, 10:05 AM'' (snd (clear_orders whole_floats after_first)) = (Ok200 r, s') \<and>
     r_token_number r = 1000)"
proof -
  obtain r s' where ev: "generate_token whole_floats tea_order ''2024-01-01T10:05:00''
       ''01 Jan 2024, 10:05 AM'' (snd (clear_orders whole_floats after_first)) = (Ok200 r, s')"
    by (simp add: clear_orders_eq tea_order_def eval_simps)
  note th = clear_orders_resets [of whole_floats after_first]
  have "r_token_number r = 1000"
    using th [THEN conjunct2, THEN conjunct2, rule_format, OF ev] .
  moreover have "clear_orders whole_floats after_first = (Cleared200, started)"
    using th [THEN conjunct1] by (simp add: started_eq sentinel_def)
  moreover note th [THEN conjunct2, THEN conjunct1] ev
  ultimately show ?thesis by blast
qed

subsection \<open>The numbering of tokens\<close>

lemma max_token_number_append:
  "tokens s \<noteq> [] \<Longrightarrow>
   max_token_number (s\<lparr>orders := os, tokens := tokens s @ [trow]\<rparr>) =
     max (max_token_number s) (t_token_number trow)"
  by (simp add: max_token_number_def Max_insert max.commute)

lemma generate_token_Ok_max:
  assumes "anchored s" and "generate_token fo data ct ft s = (Ok200 r, s')"
  shows "r_token_number r = max_token_number s + 1"
    and "max_token_number s' = max_token_number s + 1"
proof -
  from generate_token_Ok [OF assms(2)] obtain rows trow where
    tn: "r_token_number r = next_token_number s"
    and trow: "summarised_as fo r trow"
    and s': "s' = s\<lparr>orders := orders s @ rows, tokens := tokens s @ [trow]\<rparr>"
    by blast
  from tn next_token_number_anchored(1) [OF assms(1)]
  show n: "r_token_number r = max_token_number s + 1" by simp
  have "tokens s \<noteq> []" using assms(1) by (auto simp: anchored_def)
  from max_token_number_append [OF this] trow n
  show "max_token_number s' = max_token_number s + 1"
    by (simp add: s' summarised_as_def)
qed

lemma assigned_tokens_Nil [simp]: "assigned_tokens fo [] s = []"
  by (simp add: assigned_tokens_def)

lemma assigned_tokens_Cons:
  "assigned_tokens fo (rq # rqs) s =
     (case fst (handle fo rq s) of Ok200 r \<Rightarrow> [r_token_number r] | _ \<Rightarrow> []) @
     assigned_tokens fo rqs (snd (handle fo rq s))"
  by (cases "fst (handle fo rq s)") (simp_all add: assigned_tokens_def run_Cons del: run.simps(2))

lemma assigned_tokens_upto:
  "anchored s \<Longrightarrow> ClearQueue \<notin> set rqs \<Longrightarrow>
   assigned_tokens fo rqs s =
     [max_token_number s + 1 .. max_token_number s + int (length (assigned_tokens fo rqs s))]"
proof (induction rqs arbitrary: s)
  case Nil
  show ?case by simp
next
  case (Cons rq rqs)
  let ?s1 = "snd (handle fo rq s)"
  have a1: "anchored ?s1" using Cons.prems(1) by (rule handle_anchored)
  have nc: "ClearQueue \<notin> set rqs" using Cons.prems(2) by simp
  note IH = Cons.IH [OF a1 nc]
  show ?case
  proof (cases "\<exists>r. fst (handle fo rq s) = Ok200 r")
    case True
    then obtain r where r: "fst (handle fo rq s) = Ok200 r" by blast
    with Cons.prems(2) obtain data ct ft where rq: "rq = PlaceOrder data ct ft"
      by (cases rq) (auto simp: get_queue_def)
    from r have g: "generate_token fo data ct ft s = (Ok200 r, ?s1)"
      by (simp add: rq prod_eq_iff)
    note m = generate_token_Ok_max [OF Cons.prems(1) g]
    let ?n = "int (length (assigned_tokens fo rqs ?s1))"
    let ?M = "max_token_number s"
    have tl: "assigned_tokens fo rqs ?s1 = [(?M + 1) + 1 .. (?M + 1) + ?n]"
      using IH unfolding m(2) .
    have hd: "assigned_tokens fo (rq # rqs) s = (?M + 1) # assigned_tokens fo rqs ?s1"
      by (simp add: assigned_tokens_Cons r m(1))
    have len: "int (length (assigned_tokens fo (rq # rqs) s)) = 1 + ?n"
      by (simp add: hd)
    have "[?M + 1 .. (?M + 1) + ?n] = (?M + 1) # [(?M + 1) + 1 .. (?M + 1) + ?n]"
      by (rule upto_rec1) simp
    with tl hd have "assigned_tokens fo (rq # rqs) s = [?M + 1 .. (?M + 1) + ?n]"
      by simp
    moreover have "(?M + 1) + ?n = ?M + int (length (assigned_tokens fo (rq # rqs) s))"
      unfolding len by simp
    ultimately show ?thesis by simp
  next
    case False
    have same: "?s1 = s"
    proof (cases rq)
      case (PlaceOrder data ct ft)
      with False generate_token_failure [of fo data ct ft s "fst (handle fo rq s)" ?s1]
      show ?thesis by simp
    next
      case GetQueue
      then show ?thesis by (simp add: get_queue_def)
    next
      case ClearQueue
      with Cons.prems(2) show ?thesis by simp
    qed
    from False have "assigned_tokens fo (rq # rqs) s = assigned_tokens fo rqs ?s1"
      by (cases "fst (handle fo rq s)") (simp_all add: assigned_tokens_Cons)
    with IH same show ?thesis by simp
  qed
qed

lemma sorted_wrt_less_upto: "sorted_wrt (<) [i..j]"
  by (simp add: strict_sorted_iff [symmetric])



subsection \<open>Reuse of token numbers\<close>

lemma second_started:
  "generate_token whole_floats second_order ''2024-01-01T10:01:00'' ''01 Jan 2024, 10:01 AM''
     \<lparr>orders = [], tokens = [sentinel whole_floats]\<rparr> =
   (Ok200 \<lparr>r_token_number = 1000, r_timestamp = ''2024-01-01T10:01:00'', r_total = JInt 20,
       r_items = [\<lparr>e_item_name = ''tea'', e_quantity = JInt 2, e_price = JInt 10,
                   e_amount = JInt 20\<rparr>],
       r_customer_id = JStr ''c2'', r_formatted_time = ''01 Jan 2024, 10:01 AM''\<rparr>,
    \<lparr>orders = [\<lparr>o_token_number = 1000, o_customer_id = SText ''c2'', o_item_name = ''tea'',
         o_quantity = SInt 2, o_price = SReal 10, o_amount = SReal 20,
         o_timestamp = ''2024-01-01T10:01:00''\<rparr>],
     tokens = [sentinel whole_floats,
        \<lparr>t_token_number = 1000, t_customer_id = SText ''c2'',
          t_timestamp = ''2024-01-01T10:01:00'', t_total_amount = SReal 20\<rparr>]\<rparr>)"
  by (simp add: second_order_def eval_simps)

lemma assigned_order_clear_order:
  "assigned_tokens whole_floats order_clear_order started = [1000, 1000]"
  by (simp add: order_clear_order_def assigned_tokens_def tea_started clear_orders_eq
      second_started)

text \<open>
  C4, as stated, fails: an order, a clear and another order hand out 1000 twice.
\<close>

theorem token_number_reused_after_clear:
  "assigned_tokens whole_floats order_clear_order started = [1000, 1000] \<and>
   \<not> sorted_wrt (<) (assigned_tokens whole_floats order_clear_order started) \<and>
   \<not> distinct (assigned_tokens whole_floats order_clear_order started)"
  by (simp add: assigned_order_clear_order)

text \<open>
  C4, amended. Between two clears (and from start-up to the first clear) the token
  numbers handed out are strictly increasing and none is reused: each is a number
  that neither table holds, and larger than every key of \<open>tokens\<close>. A clear
  anchors the numbering at the sentinel again: the next number handed out is 1000.
\<close>

theorem no_reuse_between_clears:
  assumes "s = snd (run fo pre (init_db fo new_database))" and "ClearQueue \<notin> set rqs"
  shows "sorted_wrt (<) (assigned_tokens fo rqs s) \<and>
    distinct (assigned_tokens fo rqs s) \<and>
    (\<forall>n \<in> set (assigned_tokens fo rqs s).
       max_token_number s < n \<and>
       n \<notin> set (map t_token_number (tokens s)) \<and>
       n \<notin> set (map o_token_number (orders s))) \<and>
    (\<forall>data ct ft r s'.
       generate_token fo data ct ft (snd (clear_orders fo (snd (run fo rqs s)))) = (Ok200 r, s')
       \<longrightarrow> r_token_number r = 1000)"
proof -
  have a: "anchored s" unfolding assms(1) by (rule reachable_anchored)
  note up = assigned_tokens_upto [OF a assms(2), of fo]
  have sorted: "sorted_wrt (<) (assigned_tokens fo rqs s)"
    by (subst up) (rule sorted_wrt_less_upto)
  then have dist: "distinct (assigned_tokens fo rqs s)"
    using strict_sorted_iff by blast
  have above: "max_token_number s < n" if "n \<in> set (assigned_tokens fo rqs s)" for n
  proof -
    from that have "n \<in> set [max_token_number s + 1 ..
        max_token_number s + int (length (assigned_tokens fo rqs s))]"
      using up by simp
    then show ?thesis by simp
  qed
  have keys: "k \<le> max_token_number s" if "k \<in> set (map t_token_number (tokens s))" for k
    unfolding max_token_number_def using that by (intro Max_ge) auto
  have lines: "k \<in> set (map t_token_number (tokens s))"
    if "k \<in> set (map o_token_number (orders s))" for k
    using a that by (auto simp: anchored_def list_all_iff)
  have fresh: "max_token_number s < n \<and> n \<notin> set (map t_token_number (tokens s)) \<and>
      n \<notin> set (map o_token_number (orders s))"
    if "n \<in> set (assigned_tokens fo rqs s)" for n
    using above [OF that] keys lines by fastforce
  have again: "r_token_number r = 1000"
    if "generate_token fo data ct ft (snd (clear_orders fo (snd (run fo rqs s)))) = (Ok200 r, s')"
    for data ct ft r s'
  proof -
    let ?c = "snd (clear_orders fo (snd (run fo rqs s)))"
    have "anchored ?c" by (rule anchored_clear)
    moreover have "max_token_number ?c = 999"
      by (simp add: clear_orders_eq max_token_number_def sentinel_def)
    ultimately show ?thesis
      using generate_token_Ok_max(1) [OF _ that] by simp
  qed
  from sorted dist fresh again show ?thesis by blast
qed

theorem no_reuse_between_clears_witness:
  "started = snd (run whole_floats [] (init_db whole_floats new_database)) \<and>
   ClearQueue \<notin> set two_orders \<and>
   assigned_tokens whole_floats two_orders started = [1000, 1001] \<and>
   distinct (assigned_tokens whole_floats two_orders started) \<and>
   1000 \<notin> set (map t_token_number (tokens started)) \<and>
   (\<exists>r s'. generate_token whole_floats second_order ''2024-01-01T10:01:00''
        ''01 Jan 2024, 10:01 AM''
        (snd (clear_orders whole_floats (snd (run whole_floats two_orders started)))) = (Ok200 r, s') \<and>
      r_token_number r = 1000)"
proof -
  have h1: "started = snd (run whole_floats [] (init_db whole_floats new_database))"
    by (simp add: started_def)
  have h2: "ClearQueue \<notin> set two_orders"
    by (simp add: two_orders_def)
  note th = no_reuse_between_clears [OF h1 h2]
  have mem: "1000 \<in> set (assigned_tokens whole_floats two_orders started)"
    by (simp add: assigned_two_orders)
  have fresh: "1000 \<notin> set (map t_token_number (tokens started))"
    using th [THEN conjunct2, THEN conjunct2, THEN conjunct1, rule_format, OF mem] by blast
  obtain r s' where ev: "generate_token whole_floats second_order ''2024-01-01T10:01:00''
        ''01 Jan 2024, 10:01 AM''
        (snd (clear_orders whole_floats (snd (run whole_floats two_orders started)))) = (Ok200 r, s')"
    by (simp add: clear_orders_eq second_started)
  have "r_token_number r = 1000"
    using th [THEN conjunct2, THEN conjunct2, THEN conjunct2, rule_format, OF ev] .
  with ev h1 h2 fresh th [THEN conjunct2, THEN conjunct1] assigned_two_orders
  show ?thesis by blast
qed

subsection \<open>The sentinel and the listing\<close>

lemma set_insert_desc [simp]: "set (insert_desc x ys) = insert x (set ys)"
  by (induction ys) auto

lemma set_order_by_timestamp_desc [simp]: "set (order_by_timestamp_desc rows) = set rows"
  unfolding order_by_timestamp_desc_def by (induction rows) simp_all

lemma join_rows_member:
  "(t, ol) \<in> set (join_rows s) \<longleftrightarrow>
     t \<in> set (tokens s) \<and> ol \<in> set (orders s) \<and> t_token_number t = o_token_number ol"
  by (auto simp: join_rows_def)

lemma map_fst_append_item:
  "map fst (map (\<lambda>(k, e). if k = n then (k, f e) else (k, e)) d) = map fst d"
  by (induction d) auto

lemma keys_append_item:
  "(\<lambda>x. fst (case x of (k, e) \<Rightarrow> if k = n then (k, f e) else (k, e))) ` set d = fst ` set d"
  using arg_cong [OF map_fst_append_item [of n f d], of set] by (simp add: image_image)

lemma group_rows_keys:
  "set (map fst (group_rows rows d)) =
     set (map fst d) \<union> (\<lambda>row. t_token_number (fst row)) ` set rows"
proof (induction rows arbitrary: d)
  case Nil
  show ?case by simp
next
  case (Cons row rows)
  obtain t ol where row: "row = (t, ol)" by (cases row)
  show ?case
  proof (cases "t_token_number t \<in> set (map fst d)")
    case True
    then have "set (map fst (group_rows (row # rows) d)) =
        set (map fst d) \<union> (\<lambda>row. t_token_number (fst row)) ` set rows"
      unfolding row group_rows.simps Cons.IH by (simp add: keys_append_item)
    with True show ?thesis by (auto simp: row)
  next
    case False
    then have "set (map fst (group_rows (row # rows) d)) =
        set (map fst (d @ [(t_token_number t,
            \<lparr>q_token_number = t_token_number t, q_customer_id = t_customer_id t,
              q_timestamp = t_timestamp t, q_total = t_total_amount t,
              q_items = [queue_item_of ol]\<rparr>)])) \<union>
        (\<lambda>row. t_token_number (fst row)) ` set rows"
      unfolding row group_rows.simps Cons.IH by simp
    then show ?thesis by (auto simp: row)
  qed
qed

lemma group_rows_key_of_entry:
  "\<forall>(k, e) \<in> set d. q_token_number e = k \<Longrightarrow>
   \<forall>(k, e) \<in> set (group_rows rows d). q_token_number e = k"
proof (induction rows arbitrary: d)
  case Nil
  then show ?case by simp
next
  case (Cons row rows)
  obtain t ol where row: "row = (t, ol)" by (cases row)
  show ?case
    unfolding row group_rows.simps
    by (rule Cons.IH) (use Cons.prems in \<open>auto split: if_splits\<close>)
qed

lemma queue_of_token_numbers:
  "set (map q_token_number (queue_of s)) \<subseteq> set (map o_token_number (orders s))"
proof
  fix n assume "n \<in> set (map q_token_number (queue_of s))"
  then obtain k e where ke: "(k, e) \<in> set (group_rows (order_by_timestamp_desc (join_rows s)) [])"
    and n: "n = q_token_number e"
    by (auto simp: queue_of_def)
  from group_rows_key_of_entry [of "[]" "order_by_timestamp_desc (join_rows s)"] ke
  have "q_token_number e = k" by auto
  moreover from ke have "k \<in> set (map fst (group_rows (order_by_timestamp_desc (join_rows s)) []))"
    by force
  then have "k \<in> (\<lambda>row. t_token_number (fst row)) ` set (join_rows s)"
    unfolding group_rows_keys by simp
  then have "k \<in> set (map o_token_number (orders s))"
    by (auto simp: join_rows_member)
  ultimately show "n \<in> set (map o_token_number (orders s))"
    using n by simp
qed

text \<open>
  C8. In every store reached from start-up, no order line carries the sentinel's
  number 999, so the join of \<open>get_queue\<close> has no row for the sentinel and no entry of
  the listing has the number 999; a successful \<open>generate_token\<close> hands out a number
  from 1000 on.
\<close>

theorem sentinel_never_listed:
  assumes "s = snd (run fo pre (init_db fo new_database))"
  shows "filter (\<lambda>ol. o_token_number ol = 999) (orders s) = [] \<and>
    filter (\<lambda>row. t_token_number (fst row) = 999) (join_rows s) = [] \<and>
    (\<exists>q. get_queue s = (Queue200 q, s) \<and> 999 \<notin> set (map q_token_number q)) \<and>
    (\<forall>data ct ft r s'. generate_token fo data ct ft s = (Ok200 r, s') \<longrightarrow>
       1000 \<le> r_token_number r)"
proof -
  have a: "anchored s" unfolding assms by (rule reachable_anchored)
  then have lines: "\<forall>ol \<in> set (orders s). 1000 \<le> o_token_number ol"
    by (simp add: anchored_def list_all_iff)
  then have no_line: "filter (\<lambda>ol. o_token_number ol = 999) (orders s) = []"
    by (auto simp: filter_empty_conv)
  have no_row: "filter (\<lambda>row. t_token_number (fst row) = 999) (join_rows s) = []"
    using lines by (fastforce simp: filter_empty_conv join_rows_member)
  have "999 \<notin> set (map o_token_number (orders s))"
    using lines by auto
  with queue_of_token_numbers [of s] have "999 \<notin> set (map q_token_number (queue_of s))"
    by blast
  then have listing: "\<exists>q. get_queue s = (Queue200 q, s) \<and> 999 \<notin> set (map q_token_number q)"
    by (simp add: get_queue_def)
  have "1000 \<le> r_token_number r"
    if "generate_token fo data ct ft s = (Ok200 r, s')" for data ct ft r s'
    using generate_token_Ok_max(1) [OF a that] next_token_number_anchored(2) [OF a] by simp
  with no_line no_row listing show ?thesis by blast
qed

theorem sentinel_never_listed_witness:
  "snd (run whole_floats two_orders started) =
     snd (run whole_floats two_orders (init_db whole_floats new_database)) \<and>
   map t_token_number (tokens (snd (run whole_floats two_orders started))) = [999, 1000, 1001] \<and>
   filter (\<lambda>ol. o_token_number ol = 999) (orders (snd (run whole_floats two_orders started))) = [] \<and>
   map q_token_number (queue_of (snd (run whole_floats two_orders started))) = [1001, 1000] \<and>
   (\<exists>q. get_queue (snd (run whole_floats two_orders started)) =
          (Queue200 q, snd (run whole_floats two_orders started)) \<and>
        999 \<notin> set (map q_token_number q)) \<and>
   (\<exists>r s'. generate_token whole_floats tea_order ''2024-01-01T10:05:00''
        ''01 Jan 2024, 10:05 AM'' (snd (run whole_floats two_orders started)) = (Ok200 r, s') \<and>
      1000 \<le> r_token_number r)"
proof -
  let ?s = "snd (run whole_floats two_orders started)"
  have h: "?s = snd (run whole_floats two_orders (init_db whole_floats new_database))"
    by (simp add: started_def)
  note th = sentinel_never_listed [OF h]
  have "\<exists>r s'. generate_token whole_floats tea_order ''2024-01-01T10:05:00''
        ''01 Jan 2024, 10:05 AM'' ?s = (Ok200 r, s')"
    unfolding after_two_eq by (simp add: tea_order_def eval_simps)
  then obtain r s' where ev: "generate_token whole_floats tea_order ''2024-01-01T10:05:00''
        ''01 Jan 2024, 10:05 AM'' ?s = (Ok200 r, s')"
    by blast
  have "1000 \<le> r_token_number r"
    using th [THEN conjunct2, THEN conjunct2, THEN conjunct2, rule_format, OF ev] .
  moreover have "map t_token_number (tokens ?s) = [999, 1000, 1001]"
    by (simp add: after_two_eq sentinel_def)
  moreover have "map q_token_number (queue_of ?s) = [1001, 1000]"
    by (simp add: queue_after_two)
  ultimately show ?thesis
    using h ev th [THEN conjunct1] th [THEN conjunct2, THEN conjunct2, THEN conjunct1]
    by blast
qed

subsection \<open>Amounts and totals\<close>

lemma list_all2_right_ex:
  "list_all2 P xs ys \<Longrightarrow> y \<in> set ys \<Longrightarrow> \<exists>x \<in> set xs. P x y"
  by (induction rule: list_all2_induct) auto

lemma list_all2_map_eq:
  "list_all2 (\<lambda>x y. g y = f x) xs ys \<Longrightarrow> map g ys = map f xs"
  by (induction rule: list_all2_induct) auto


lemma py_add_numeric:
  "py_add fo a c = Inr v \<Longrightarrow> as_num a \<noteq> None \<Longrightarrow> as_num c \<noteq> None \<and> as_num v \<noteq> None"
  by (cases "as_num a"; cases "as_num c"; cases "the (as_num a)"; cases "the (as_num c)")
    (auto simp: py_add_def split: option.splits)

lemma py_sum_numeric:
  "py_sum fo acc xs = Inr v \<Longrightarrow> as_num acc \<noteq> None \<Longrightarrow> \<forall>x \<in> set xs. as_num x \<noteq> None"
proof (induction xs arbitrary: acc)
  case Nil
  then show ?case by simp
next
  case (Cons x xs)
  from Cons.prems(1) obtain acc1 where a: "py_add fo acc x = Inr acc1"
    and r: "py_sum fo acc1 xs = Inr v"
    by (auto simp: bnd_Inr_iff)
  from py_add_numeric [OF a Cons.prems(2)] Cons.IH [OF r] show ?case by simp
qed

lemma py_repeat_not_numeric: "py_repeat n a = Inr v \<Longrightarrow> as_num v = None"
  by (cases a) auto

lemma py_mul_numeric:
  "py_mul fo a c = Inr v \<Longrightarrow> as_num v \<noteq> None \<Longrightarrow> as_num a \<noteq> None \<and> as_num c \<noteq> None"
  by (auto simp: py_mul_def split: option.splits num.splits dest: py_repeat_not_numeric)

lemma as_num_json_of_num [simp]: "as_num (json_of_num a) = Some a"
  by (cases a) simp_all















subsection \<open>Entries with no quantity to serve\<close>

lemma py_gt0_stored:
  "column fo (integer_affinity fo) v c \<Longrightarrow> py_gt0 fo v = Inr True \<Longrightarrow>
   py_gt0 fo (py_of_sql c) = Inr True"
  by (cases v)
    (auto simp: column_iff bnd_Inr_iff bind_int_def integer_of_real_def fl_pos_def
      split: if_splits option.splits)

lemma line_of_positive:
  "line_of fo kv e \<Longrightarrow> positive_quantity fo (snd kv) \<Longrightarrow> py_gt0 fo (e_quantity e) = Inr True"
  by (simp add: line_of_def positive_quantity_def)

lemma lines_positive:
  assumes "list_all2 (line_of fo) (filter (\<lambda>kv. positive_quantity fo (snd kv)) kvs) es"
    and "e \<in> set es"
  shows "py_gt0 fo (e_quantity e) = Inr True"
proof -
  from list_all2_right_ex [OF assms] obtain kv where
    "kv \<in> set (filter (\<lambda>kv. positive_quantity fo (snd kv)) kvs)" "line_of fo kv e"
    by blast
  then show ?thesis by (intro line_of_positive [of fo kv e]) simp_all
qed

lemma generate_token_quantities:
  assumes "list_all (\<lambda>ol. py_gt0 fo (py_of_sql (o_quantity ol)) = Inr True) (orders s)"
    and "generate_token fo data ct ft s = (resp, s')"
  shows "list_all (\<lambda>ol. py_gt0 fo (py_of_sql (o_quantity ol)) = Inr True) (orders s')"
proof (cases "\<exists>r. resp = Ok200 r")
  case False
  with generate_token_failure [OF assms(2)] assms(1) show ?thesis by simp
next
  case True
  then obtain r where r: "resp = Ok200 r" by blast
  from generate_token_Ok [OF assms(2) [unfolded r]] obtain kvs rows trow where
    lines: "list_all2 (line_of fo) (filter (\<lambda>kv. positive_quantity fo (snd kv)) kvs) (r_items r)"
    and rows: "list_all2 (stored_as fo (r_token_number r) (r_customer_id r) ct) (r_items r) rows"
    and s': "s' = s\<lparr>orders := orders s @ rows, tokens := tokens s @ [trow]\<rparr>"
    by blast
  have "py_gt0 fo (py_of_sql (o_quantity row)) = Inr True" if "row \<in> set rows" for row
  proof -
    from list_all2_right_ex [OF rows that] obtain e where e: "e \<in> set (r_items r)"
      and st: "stored_as fo (r_token_number r) (r_customer_id r) ct e row"
      by blast
    from st have "column fo (integer_affinity fo) (e_quantity e) (o_quantity row)"
      by (simp add: stored_as_def)
    from py_gt0_stored [OF this lines_positive [OF lines e]] show ?thesis .
  qed
  with assms(1) show ?thesis by (auto simp: s' list_all_iff)
qed

lemma run_quantities:
  "list_all (\<lambda>ol. py_gt0 fo (py_of_sql (o_quantity ol)) = Inr True) (orders s) \<Longrightarrow>
   list_all (\<lambda>ol. py_gt0 fo (py_of_sql (o_quantity ol)) = Inr True) (orders (snd (run fo rqs s)))"
proof (induction rqs arbitrary: s)
  case Nil
  then show ?case by simp
next
  case (Cons rq rqs)
  have "list_all (\<lambda>ol. py_gt0 fo (py_of_sql (o_quantity ol)) = Inr True)
      (orders (snd (handle fo rq s)))"
  proof (cases rq)
    case (PlaceOrder data ct ft)
    with generate_token_quantities [OF Cons.prems, of data ct ft] show ?thesis
      by (cases "generate_token fo data ct ft s") simp
  next
    case GetQueue
    with Cons.prems show ?thesis by (simp add: get_queue_def)
  next
    case ClearQueue
    then show ?thesis by (simp add: clear_orders_eq)
  qed
  from Cons.IH [OF this] show ?case by (simp add: run_Cons del: run.simps(2))
qed

text \<open>
  C6. In a store reached from start-up every order line has a quantity above 0, and
  \<open>generate_token\<close> keeps it so. When the call succeeds, the lines of the response
  and the rows it adds to \<open>orders\<close> are, in order, those of the request's entries
  whose quantity is above 0: an entry whose quantity is 0 or negative gives no line
  and no row, and the total is the sum of the amounts of the lines only. When the call
  fails the store is unchanged.
\<close>

theorem nonpositive_quantity_dropped:
  assumes "s = snd (run fo pre (init_db fo new_database))"
    and "generate_token fo data ct ft s = (resp, s')"
  shows "list_all (\<lambda>ol. py_gt0 fo (py_of_sql (o_quantity ol)) = Inr True) (orders s') \<and>
    ((\<forall>r. resp \<noteq> Ok200 r) \<longrightarrow> s' = s) \<and>
    (\<forall>r. resp = Ok200 r \<longrightarrow>
       (\<exists>kvs rows trow.
          py_getitem data ''items'' = Inr (JObj kvs) \<and>
          s' = s\<lparr>orders := orders s @ rows, tokens := tokens s @ [trow]\<rparr> \<and>
          map e_item_name (r_items r) =
            map fst (filter (\<lambda>kv. positive_quantity fo (snd kv)) kvs) \<and>
          map o_item_name rows =
            map fst (filter (\<lambda>kv. positive_quantity fo (snd kv)) kvs) \<and>
          list_all (\<lambda>e. py_gt0 fo (e_quantity e) = Inr True) (r_items r) \<and>
          (\<forall>kv \<in> set kvs. distinct (map fst kvs) \<and> \<not> positive_quantity fo (snd kv) \<longrightarrow>
             fst kv \<notin> set (map e_item_name (r_items r)) \<and>
             fst kv \<notin> set (map o_item_name rows)) \<and>
          py_sum fo (JInt 0) (map e_amount (r_items r)) = Inr (r_total r)))"
proof (intro conjI allI impI)
  have "list_all (\<lambda>ol. py_gt0 fo (py_of_sql (o_quantity ol)) = Inr True) (orders s)"
    unfolding assms(1) by (rule run_quantities) (simp add: init_db_new)
  from generate_token_quantities [OF this assms(2)]
  show "list_all (\<lambda>ol. py_gt0 fo (py_of_sql (o_quantity ol)) = Inr True) (orders s')" .
next
  assume "\<forall>r. resp \<noteq> Ok200 r"
  with generate_token_failure [OF assms(2)] show "s' = s" by blast
next
  fix r assume r: "resp = Ok200 r"
  let ?pos = "\<lambda>kvs. filter (\<lambda>kv. positive_quantity fo (snd kv)) kvs"
  from generate_token_Ok [OF assms(2) [unfolded r]] obtain kvs rows trow where
    items: "py_getitem data ''items'' = Inr (JObj kvs)"
    and lines: "list_all2 (line_of fo) (?pos kvs) (r_items r)"
    and rows: "list_all2 (stored_as fo (r_token_number r) (r_customer_id r) ct) (r_items r) rows"
    and total: "py_sum fo (JInt 0) (map e_amount (r_items r)) = Inr (r_total r)"
    and s': "s' = s\<lparr>orders := orders s @ rows, tokens := tokens s @ [trow]\<rparr>"
    by blast
  have names: "map e_item_name (r_items r) = map fst (?pos kvs)"
    by (rule list_all2_map_eq) (rule list_all2_mono [OF lines], simp add: line_of_def)
  have "map o_item_name rows = map e_item_name (r_items r)"
    by (rule list_all2_map_eq) (rule list_all2_mono [OF rows], simp add: stored_as_def)
  with names have row_names: "map o_item_name rows = map fst (?pos kvs)" by simp
  have pos: "list_all (\<lambda>e. py_gt0 fo (e_quantity e) = Inr True) (r_items r)"
    using lines_positive [OF lines] by (simp add: list_all_iff)
  have dropped: "fst kv \<notin> set (map e_item_name (r_items r)) \<and>
      fst kv \<notin> set (map o_item_name rows)"
    if "kv \<in> set kvs" "distinct (map fst kvs) \<and> \<not> positive_quantity fo (snd kv)" for kv
  proof -
    have "fst kv \<notin> set (map fst (?pos kvs))"
    proof
      assume "fst kv \<in> set (map fst (?pos kvs))"
      then obtain kv' where kv': "kv' \<in> set kvs" "positive_quantity fo (snd kv')"
        "fst kv' = fst kv"
        by auto
      with that have "kv' = kv"
        by (metis eq_key_imp_eq_value prod.collapse)
      with kv'(2) that(2) show False by simp
    qed
    with names row_names show ?thesis by simp
  qed
  from items s' names row_names pos dropped total
  show "\<exists>kvs rows trow.
          py_getitem data ''items'' = Inr (JObj kvs) \<and>
          s' = s\<lparr>orders := orders s @ rows, tokens := tokens s @ [trow]\<rparr> \<and>
          map e_item_name (r_items r) =
            map fst (filter (\<lambda>kv. positive_quantity fo (snd kv)) kvs) \<and>
          map o_item_name rows =
            map fst (filter (\<lambda>kv. positive_quantity fo (snd kv)) kvs) \<and>
          list_all (\<lambda>e. py_gt0 fo (e_quantity e) = Inr True) (r_items r) \<and>
          (\<forall>kv \<in> set kvs. distinct (map fst kvs) \<and> \<not> positive_quantity fo (snd kv) \<longrightarrow>
             fst kv \<notin> set (map e_item_name (r_items r)) \<and>
             fst kv \<notin> set (map o_item_name rows)) \<and>
          py_sum fo (JInt 0) (map e_amount (r_items r)) = Inr (r_total r)"
    by (intro exI [of _ kvs] exI [of _ rows] exI [of _ trow]) blast
qed

theorem nonpositive_quantity_dropped_witness:
  "started = snd (run whole_floats [] (init_db whole_floats new_database)) \<and>
   \<not> positive_quantity whole_floats
       (JObj [(''quantity'', JInt 0), (''price'', JInt 20)] :: int json) \<and>
   (\<exists>r s'. generate_token whole_floats tea_order ''2024-01-01T10:00:00''
       ''01 Jan 2024, 10:00 AM'' started = (Ok200 r, s') \<and>
     map e_item_name (r_items r) = [''tea''] \<and> r_total r = JInt 20 \<and>
     map o_item_name (orders s') = [''tea''] \<and>
     list_all (\<lambda>ol. py_gt0 whole_floats (py_of_sql (o_quantity ol)) = Inr True) (orders s'))"
proof -
  let ?r = "\<lparr>r_token_number = 1000, r_timestamp = ''2024-01-01T10:00:00'',
    r_total = JInt 20 :: int json,
    r_items = [\<lparr>e_item_name = ''tea'', e_quantity = JInt 2, e_price = JInt 10,
                e_amount = JInt 20\<rparr>],
    r_customer_id = JStr ''c1'', r_formatted_time = ''01 Jan 2024, 10:00 AM''\<rparr>"
  have h: "started = snd (run whole_floats [] (init_db whole_floats new_database))"
    by (simp add: started_def)
  have ok: "generate_token whole_floats tea_order ''2024-01-01T10:00:00''
      ''01 Jan 2024, 10:00 AM'' started = (Ok200 ?r, after_first)"
    by (rule tea_started)
  note th = nonpositive_quantity_dropped [OF h ok]
  show ?thesis
  proof (intro exI conjI)
    show "started = snd (run whole_floats [] (init_db whole_floats new_database))" by (rule h)
    show "\<not> positive_quantity whole_floats
       (JObj [(''quantity'', JInt 0), (''price'', JInt 20)] :: int json)"
      by (simp add: positive_quantity_def)
    show "generate_token whole_floats tea_order ''2024-01-01T10:00:00''
      ''01 Jan 2024, 10:00 AM'' started = (Ok200 ?r, after_first)"
      by (rule ok)
    show "map e_item_name (r_items ?r) = [''tea'']" by simp
    show "r_total ?r = JInt 20" by simp
    show "map o_item_name (orders after_first) = [''tea'']"
      by (simp add: after_first_eq)
    show "list_all (\<lambda>ol. py_gt0 whole_floats (py_of_sql (o_quantity ol)) = Inr True)
        (orders after_first)"
      by (rule th [THEN conjunct1])
  qed
qed

subsection \<open>Prices\<close>

lemma negative_price_started:
  "generate_token whole_floats negative_price_order ''2024-01-01T10:00:00''
     ''01 Jan 2024, 10:00 AM'' started =
   (Ok200 \<lparr>r_token_number = 1000, r_timestamp = ''2024-01-01T10:00:00'', r_total = JInt (- 5),
       r_items = [\<lparr>e_item_name = ''tea'', e_quantity = JInt 1, e_price = JInt (- 5),
                   e_amount = JInt (- 5)\<rparr>],
       r_customer_id = JStr ''c1'', r_formatted_time = ''01 Jan 2024, 10:00 AM''\<rparr>,
    \<lparr>orders = [\<lparr>o_token_number = 1000, o_customer_id = SText ''c1'', o_item_name = ''tea'',
         o_quantity = SInt 1, o_price = SReal (- 5), o_amount = SReal (- 5),
         o_timestamp = ''2024-01-01T10:00:00''\<rparr>],
     tokens = [sentinel whole_floats,
        \<lparr>t_token_number = 1000, t_customer_id = SText ''c1'',
          t_timestamp = ''2024-01-01T10:00:00'', t_total_amount = SReal (- 5)\<rparr>]\<rparr>)"
  by (simp add: started_eq negative_price_order_def eval_simps)

text \<open>
  C9, as stated, fails: an order for one tea at the price -5 succeeds from start-up
  and its line is stored with the price -5.0, which is below 0.
\<close>

theorem negative_price_persisted:
  "status (fst (generate_token whole_floats negative_price_order ''2024-01-01T10:00:00''
       ''01 Jan 2024, 10:00 AM'' (init_db whole_floats new_database))) = 200 \<and>
   map o_price (orders (snd (generate_token whole_floats negative_price_order
       ''2024-01-01T10:00:00'' ''01 Jan 2024, 10:00 AM''
       (init_db whole_floats new_database)))) = [SReal (- 5)] \<and>
   sql_lt0 whole_floats (SReal (- 5))"
  using negative_price_started by (simp add: started_def whole_floats_def)

lemma list_all2_compose:
  "list_all2 P xs ys \<Longrightarrow> list_all2 Q ys zs \<Longrightarrow>
   list_all2 (\<lambda>x z. \<exists>y \<in> set ys. P x y \<and> Q y z) xs zs"
  unfolding list_all2_conv_all_nth by (metis nth_mem)

lemma column_real_sign:
  assumes "\<forall>i. fl_neg fo (fl_sql_of_int fo i) \<longleftrightarrow> i < 0"
    and "column fo (real_affinity fo) p c" and "as_num p \<noteq> None"
  shows "sql_lt0 fo c \<longleftrightarrow> py_lt0 fo p"
  using assms by (cases p) (auto simp: column_iff bnd_Inr_iff bind_int_def split: if_splits)

lemma pow_excess_bits_le: "0 < n \<Longrightarrow> 2 ^ excess_bits n \<le> n"
proof (induction n rule: excess_bits.induct)
  case (1 n)
  show ?case
  proof (cases "n < 2 ^ 53")
    case True
    with "1.prems" show ?thesis by (subst excess_bits.simps) simp
  next
    case False
    then have "0 < n div 2" by simp
    from "1.IH" [OF False this] have "2 * 2 ^ excess_bits (n div 2) \<le> 2 * (n div 2)" by simp
    also have "\<dots> \<le> n" by simp
    finally show ?thesis using False by (subst excess_bits.simps) simp
  qed
qed

lemma round53_neg_iff: "round53 i < 0 \<longleftrightarrow> i < 0"
proof (cases "i = 0")
  case True
  then show ?thesis by (simp add: round53_small)
next
  case False
  define e where "e = excess_bits (nat \<bar>i\<bar>)"
  define q where "q = \<bar>i\<bar> div 2 ^ e"
  define m where "m = (if 2 ^ e < 2 * (\<bar>i\<bar> mod 2 ^ e) \<or> (2 ^ e = 2 * (\<bar>i\<bar> mod 2 ^ e) \<and> odd q)
    then q + 1 else q)"
  from False have "0 < nat \<bar>i\<bar>" by simp
  from pow_excess_bits_le [OF this] have "(2::nat) ^ e \<le> nat \<bar>i\<bar>" by (simp add: e_def)
  then have "(2::int) ^ e \<le> \<bar>i\<bar>"
    by (metis of_nat_le_iff of_nat_power of_nat_numeral int_nat_eq abs_ge_zero)
  then have "0 < q" unfolding q_def
    by (simp add: pos_imp_zdiv_pos_iff)
  then have "0 < m" by (simp add: m_def)
  then have pos: "0 < m * 2 ^ e" by simp
  have eq: "round53 i = sgn i * (m * 2 ^ e)"
    by (simp add: round53_def Let_def e_def q_def m_def)
  show ?thesis
  proof (cases "i < 0")
    case True
    then have "round53 i = - (m * 2 ^ e)" unfolding eq by simp
    with pos True show ?thesis by linarith
  next
    case neg: False
    with False have "round53 i = m * 2 ^ e" unfolding eq by simp
    with pos neg show ?thesis by linarith
  qed
qed

text \<open>
  C9, amended. The price of an order line is not checked: for every line stored by
  a successful \<open>generate_token\<close> the request gave its item a price that is a number,
  and the stored price is below 0 exactly when that price is. So a stored price is
  non-negative whenever the request's price is, and a negative price is stored
  negative. (The conversion of an INTEGER to a REAL is taken to keep the sign, as the
  conversion to the nearest double does.)
\<close>

theorem stored_price_sign:
  assumes "generate_token fo data ct ft s = (Ok200 r, s')"
    and "\<forall>i. fl_neg fo (fl_sql_of_int fo i) \<longleftrightarrow> i < 0"
  shows "\<exists>kvs rows trow.
    py_getitem data ''items'' = Inr (JObj kvs) \<and>
    s' = s\<lparr>orders := orders s @ rows, tokens := tokens s @ [trow]\<rparr> \<and>
    list_all2 (\<lambda>kv row. o_item_name row = fst kv \<and>
        (\<exists>p. py_getitem (snd kv) ''price'' = Inr p \<and> as_num p \<noteq> None \<and>
             (sql_lt0 fo (o_price row) \<longleftrightarrow> py_lt0 fo p)))
      (filter (\<lambda>kv. positive_quantity fo (snd kv)) kvs) rows"
proof -
  let ?pos = "\<lambda>kvs. filter (\<lambda>kv. positive_quantity fo (snd kv)) kvs"
  from generate_token_Ok [OF assms(1)] obtain kvs rows trow where
    items: "py_getitem data ''items'' = Inr (JObj kvs)"
    and lines: "list_all2 (line_of fo) (?pos kvs) (r_items r)"
    and rows: "list_all2 (stored_as fo (r_token_number r) (r_customer_id r) ct) (r_items r) rows"
    and total: "py_sum fo (JInt 0) (map e_amount (r_items r)) = Inr (r_total r)"
    and s': "s' = s\<lparr>orders := orders s @ rows, tokens := tokens s @ [trow]\<rparr>"
    by blast
  have num: "as_num (e_amount e) \<noteq> None" if "e \<in> set (r_items r)" for e
    using py_sum_numeric [OF total] that by simp
  have "list_all2 (\<lambda>kv row. \<exists>e \<in> set (r_items r). line_of fo kv e \<and>
      stored_as fo (r_token_number r) (r_customer_id r) ct e row) (?pos kvs) rows"
    using lines rows by (rule list_all2_compose)
  then have "list_all2 (\<lambda>kv row. o_item_name row = fst kv \<and>
        (\<exists>p. py_getitem (snd kv) ''price'' = Inr p \<and> as_num p \<noteq> None \<and>
             (sql_lt0 fo (o_price row) \<longleftrightarrow> py_lt0 fo p))) (?pos kvs) rows"
  proof (rule list_all2_mono)
    fix kv row
    assume "\<exists>e \<in> set (r_items r). line_of fo kv e \<and>
      stored_as fo (r_token_number r) (r_customer_id r) ct e row"
    then obtain e where e: "e \<in> set (r_items r)" and l: "line_of fo kv e"
      and st: "stored_as fo (r_token_number r) (r_customer_id r) ct e row"
      by blast
    from l have p: "py_getitem (snd kv) ''price'' = Inr (e_price e)"
      and m: "py_mul fo (e_quantity e) (e_price e) = Inr (e_amount e)"
      and n: "e_item_name e = fst kv"
      by (simp_all add: line_of_def)
    from py_mul_numeric [OF m num [OF e]] have pn: "as_num (e_price e) \<noteq> None" by simp
    from st have c: "column fo (real_affinity fo) (e_price e) (o_price row)"
      and nm: "o_item_name row = e_item_name e"
      by (simp_all add: stored_as_def)
    from column_real_sign [OF assms(2) c pn] p pn n nm
    show "o_item_name row = fst kv \<and>
        (\<exists>p. py_getitem (snd kv) ''price'' = Inr p \<and> as_num p \<noteq> None \<and>
             (sql_lt0 fo (o_price row) \<longleftrightarrow> py_lt0 fo p))"
      by simp
  qed
  with items s' show ?thesis by blast
qed

theorem stored_price_sign_witness:
  "(\<forall>i. fl_neg whole_floats (fl_sql_of_int whole_floats i) \<longleftrightarrow> i < 0) \<and>
   (\<exists>r s' rows trow. generate_token whole_floats negative_price_order ''2024-01-01T10:00:00''
      ''01 Jan 2024, 10:00 AM'' started = (Ok200 r, s') \<and>
    s' = started\<lparr>orders := orders started @ rows, tokens := tokens started @ [trow]\<rparr> \<and>
    map e_price (r_items r) = [JInt (- 5)] \<and>
    map (\<lambda>row. sql_lt0 whole_floats (o_price row)) rows = [True])"
proof -
  have sign: "\<forall>i. fl_neg whole_floats (fl_sql_of_int whole_floats i) \<longleftrightarrow> i < 0"
    by (simp add: whole_floats_def round53_neg_iff)
  define r where "r = \<lparr>r_token_number = 1000, r_timestamp = ''2024-01-01T10:00:00'',
    r_total = JInt (- 5) :: int json,
    r_items = [\<lparr>e_item_name = ''tea'', e_quantity = JInt 1, e_price = JInt (- 5),
                e_amount = JInt (- 5)\<rparr>],
    r_customer_id = JStr ''c1'', r_formatted_time = ''01 Jan 2024, 10:00 AM''\<rparr>"
  obtain s' where ev: "generate_token whole_floats negative_price_order ''2024-01-01T10:00:00''
      ''01 Jan 2024, 10:00 AM'' started = (Ok200 r, s')"
    by (simp add: negative_price_started r_def)
  from stored_price_sign [OF ev sign] obtain kvs rows trow where
    items: "py_getitem negative_price_order ''items'' = Inr (JObj kvs)"
    and s': "s' = started\<lparr>orders := orders started @ rows, tokens := tokens started @ [trow]\<rparr>"
    and all: "list_all2 (\<lambda>kv row. o_item_name row = fst kv \<and>
        (\<exists>p. py_getitem (snd kv) ''price'' = Inr p \<and> as_num p \<noteq> None \<and>
             (sql_lt0 whole_floats (o_price row) \<longleftrightarrow> py_lt0 whole_floats p)))
      (filter (\<lambda>kv. positive_quantity whole_floats (snd kv)) kvs) rows"
    by blast
  from items have kvs: "kvs = [(''tea'', JObj [(''quantity'', JInt 1), (''price'', JInt (- 5))])]"
    by (simp add: negative_price_order_def)
  from all have neg: "map (\<lambda>row. sql_lt0 whole_floats (o_price row)) rows = [True]"
    by (auto simp: kvs positive_quantity_def list_all2_Cons1)
  show ?thesis
  proof (intro exI conjI)
    show "\<forall>i. fl_neg whole_floats (fl_sql_of_int whole_floats i) \<longleftrightarrow> i < 0" by (rule sign)
    show "generate_token whole_floats negative_price_order ''2024-01-01T10:00:00''
      ''01 Jan 2024, 10:00 AM'' started = (Ok200 r, s')" by (rule ev)
    show "s' = started\<lparr>orders := orders started @ rows, tokens := tokens started @ [trow]\<rparr>"
      by (rule s')
    show "map e_price (r_items r) = [JInt (- 5)]" by (simp add: r_def)
    show "map (\<lambda>row. sql_lt0 whole_floats (o_price row)) rows = [True]" by (rule neg)
  qed
qed

subsection \<open>Rejected requests\<close>

lemma map_of_key_present:
  "key \<in> set (map fst kvs) \<Longrightarrow> \<exists>v. map_of kvs key = Some v"
  by (induction kvs) auto

lemma valid_items_of_Nil_iff:
  "valid_items_of fo kvs = Inr [] \<longleftrightarrow> no_item_survives fo kvs"
proof (induction kvs)
  case Nil
  show ?case by (simp add: no_item_survives_def)
next
  case (Cons kv kvs)
  obtain k v where kv: "kv = (k, v)" by (cases kv)
  show ?case
  proof (cases "bnd (py_getitem v ''quantity'') (py_gt0 fo)")
    case (Inl e)
    then have "valid_items_of fo (kv # kvs) = Inl e"
      by (cases "py_getitem v ''quantity''") (simp_all add: kv)
    with Inl show ?thesis by (simp add: kv no_item_survives_def)
  next
    case (Inr keep)
    then obtain q where q: "py_getitem v ''quantity'' = Inr q" "py_gt0 fo q = Inr keep"
      by (auto simp: bnd_Inr_iff)
    show ?thesis
    proof (cases "valid_items_of fo kvs")
      case (Inl e)
      with Cons.IH q Inr show ?thesis by (simp add: kv no_item_survives_def)
    next
      case (Inr kept)
      with Cons.IH q \<open>bnd (py_getitem v ''quantity'') (py_gt0 fo) = Inr keep\<close>
      show ?thesis by (auto simp: kv no_item_survives_def)
    qed
  qed
qed

lemma generate_token_object_400:
  "status (fst (generate_token fo (JObj body) ct ft s)) = 400 \<longleftrightarrow>
     body = [] \<or> ''items'' \<notin> set (map fst body) \<or> ''customer_id'' \<notin> set (map fst body) \<or>
     (\<exists>its. map_of body ''items'' = Some (JObj its) \<and> no_item_survives fo its)"
proof (cases "body = [] \<or> ''items'' \<notin> set (map fst body) \<or> ''customer_id'' \<notin> set (map fst body)")
  case True
  then have "invalid_order_data fo (JObj body) = Inr True"
    by (auto simp: invalid_order_data_def)
  then have "generate_token fo (JObj body) ct ft s = (Err400 ''Invalid order data'', s)"
    by (simp add: generate_token_def)
  with True show ?thesis by auto
next
  case False
  then have inv: "invalid_order_data fo (JObj body) = Inr False"
    by (auto simp: invalid_order_data_def)
  from False obtain v where v: "map_of body ''items'' = Some v"
    using map_of_key_present [of "''items''" body] by blast
  show ?thesis
  proof (cases "\<exists>its. v = JObj its")
    case nobj: False
    then have "py_items v = Inl AttributeError" by (cases v) simp_all
    then have "generate_token fo (JObj body) ct ft s = (Err500 AttributeError, s)"
      by (simp add: generate_token_def inv v)
    with False nobj v show ?thesis by auto
  next
    case True
    then obtain its where its: "v = JObj its" by blast
    show ?thesis
    proof (cases "valid_items_of fo its")
      case (Inl e)
      then have "generate_token fo (JObj body) ct ft s = (Err500 e, s)"
        by (simp add: generate_token_def inv v its)
      moreover from Inl have "\<not> no_item_survives fo its"
        using valid_items_of_Nil_iff [of fo its] by simp
      ultimately show ?thesis using False v its by auto
    next
      case (Inr vs)
      show ?thesis
      proof (cases "vs = []")
        case True
        with Inr have "generate_token fo (JObj body) ct ft s = (Err400 ''No items in order'', s)"
          by (simp add: generate_token_def inv v its)
        moreover from Inr True have "no_item_survives fo its"
          using valid_items_of_Nil_iff [of fo its] by simp
        ultimately show ?thesis using v its by auto
      next
        case ne: False
        with Inr have "status (fst (generate_token fo (JObj body) ct ft s)) \<noteq> 400"
          by (auto simp: generate_token_def inv v its split: sum.splits)
        moreover from Inr ne have "\<not> no_item_survives fo its"
          using valid_items_of_Nil_iff [of fo its] by simp
        ultimately show ?thesis using False v its by auto
      qed
    qed
  qed
qed

lemma empty_customer_started:
  "generate_token whole_floats empty_customer_order ''2024-01-01T10:00:00''
     ''01 Jan 2024, 10:00 AM'' started =
   (Ok200 \<lparr>r_token_number = 1000, r_timestamp = ''2024-01-01T10:00:00'', r_total = JInt 10,
       r_items = [\<lparr>e_item_name = ''tea'', e_quantity = JInt 1, e_price = JInt 10,
                   e_amount = JInt 10\<rparr>],
       r_customer_id = JStr '''', r_formatted_time = ''01 Jan 2024, 10:00 AM''\<rparr>,
    \<lparr>orders = [\<lparr>o_token_number = 1000, o_customer_id = SText '''', o_item_name = ''tea'',
         o_quantity = SInt 1, o_price = SReal 10, o_amount = SReal 10,
         o_timestamp = ''2024-01-01T10:00:00''\<rparr>],
     tokens = [sentinel whole_floats,
        \<lparr>t_token_number = 1000, t_customer_id = SText '''',
          t_timestamp = ''2024-01-01T10:00:00'', t_total_amount = SReal 10\<rparr>]\<rparr>)"
  by (simp add: started_eq empty_customer_order_def eval_simps)

text \<open>
  C3, as stated, fails: a request whose customer id is the empty string, with one
  item of quantity 1, is accepted with the status 200 and its line is stored.
\<close>

theorem empty_customer_id_accepted:
  "py_getitem empty_customer_order ''customer_id'' = Inr (JStr '''') \<and>
   status (fst (generate_token whole_floats empty_customer_order ''2024-01-01T10:00:00''
       ''01 Jan 2024, 10:00 AM'' (init_db whole_floats new_database))) = 200 \<and>
   map o_customer_id (orders (snd (generate_token whole_floats empty_customer_order
       ''2024-01-01T10:00:00'' ''01 Jan 2024, 10:00 AM'' (init_db whole_floats new_database)))) =
     [SText '''']"
  using empty_customer_started by (simp add: started_def empty_customer_order_def)

text \<open>
  C3, amended. For a body that is a JSON object, \<open>generate_token\<close> answers 400 exactly
  when the body is empty, or has no key \<open>customer_id\<close>, or has no key \<open>items\<close>, or
  its \<open>items\<close> is an object none of whose entries survives the filter (each has a
  numeric quantity that is not above 0). An empty customer id is accepted. Whatever
  the body, a call that does not answer 200 answers 400 or 500 and leaves the store
  as it was.
\<close>

theorem invalid_input_exactly:
  "(status (fst (generate_token fo (JObj body) ct ft s)) = 400 \<longleftrightarrow>
      body = [] \<or> ''customer_id'' \<notin> set (map fst body) \<or> ''items'' \<notin> set (map fst body) \<or>
      (\<exists>its. map_of body ''items'' = Some (JObj its) \<and> no_item_survives fo its)) \<and>
   (\<forall>data resp s'. generate_token fo data ct ft s = (resp, s') \<and> status resp \<noteq> 200 \<longrightarrow>
      s' = s \<and> (status resp = 400 \<or> status resp = 500))"
proof (rule conjI; (intro allI impI)?)
  show "status (fst (generate_token fo (JObj body) ct ft s)) = 400 \<longleftrightarrow>
      body = [] \<or> ''customer_id'' \<notin> set (map fst body) \<or> ''items'' \<notin> set (map fst body) \<or>
      (\<exists>its. map_of body ''items'' = Some (JObj its) \<and> no_item_survives fo its)"
    using generate_token_object_400 [of fo body ct ft s] by blast
next
  fix data resp s'
  assume "generate_token fo data ct ft s = (resp, s') \<and> status resp \<noteq> 200"
  then show "s' = s \<and> (status resp = 400 \<or> status resp = 500)"
    using generate_token_cases [of fo data ct ft s] by auto
qed

theorem invalid_input_exactly_witness:
  "all_zero_order = JObj [(''customer_id'', JStr ''c1''),
     (''items'', JObj [(''tea'', JObj [(''quantity'', JInt 0), (''price'', JInt 10)])])] \<and>
   no_item_survives whole_floats
     [(''tea'', JObj [(''quantity'', JInt 0), (''price'', JInt 10)] :: int json)] \<and>
   status (fst (generate_token whole_floats all_zero_order ''2024-01-01T10:00:00''
       ''01 Jan 2024, 10:00 AM'' after_first)) = 400 \<and>
   snd (generate_token whole_floats all_zero_order ''2024-01-01T10:00:00''
       ''01 Jan 2024, 10:00 AM'' after_first) = after_first"
proof -
  let ?body = "[(''customer_id'', JStr ''c1''),
     (''items'', JObj [(''tea'', JObj [(''quantity'', JInt 0), (''price'', JInt 10)])])]
     :: (string \<times> int json) list"
  let ?g = "generate_token whole_floats all_zero_order ''2024-01-01T10:00:00''
       ''01 Jan 2024, 10:00 AM'' after_first"
  note th = invalid_input_exactly [of whole_floats ?body "''2024-01-01T10:00:00''"
      "''01 Jan 2024, 10:00 AM''" after_first]
  have eq: "all_zero_order = JObj ?body" by (simp add: all_zero_order_def)
  have none: "no_item_survives whole_floats
     [(''tea'', JObj [(''quantity'', JInt 0), (''price'', JInt 10)] :: int json)]"
    by (simp add: no_item_survives_def)
  then have "\<exists>its. map_of ?body ''items'' = Some (JObj its) \<and> no_item_survives whole_floats its"
    by simp
  with th [THEN conjunct1] have st: "status (fst ?g) = 400"
    unfolding eq by blast
  have "generate_token whole_floats all_zero_order ''2024-01-01T10:00:00''
       ''01 Jan 2024, 10:00 AM'' after_first = (fst ?g, snd ?g) \<and> status (fst ?g) \<noteq> 200"
    using st by simp
  from th [THEN conjunct2, rule_format, OF this] have "snd ?g = after_first" by simp
  with eq none st show ?thesis by blast
qed

subsection \<open>Malformed items\<close>

lemma valid_items_of_Inr_tests:
  "valid_items_of fo kvs = Inr vs \<Longrightarrow> kv \<in> set kvs \<Longrightarrow>
   \<exists>b. bnd (py_getitem (snd kv) ''quantity'') (py_gt0 fo) = Inr b"
proof (induction kvs arbitrary: vs)
  case Nil
  then show ?case by simp
next
  case (Cons x kvs)
  obtain k v where x: "x = (k, v)" by (cases x)
  from Cons.prems(1) obtain q keep kept where
    q: "py_getitem v ''quantity'' = Inr q" and keep: "py_gt0 fo q = Inr keep"
    and kept: "valid_items_of fo kvs = Inr kept"
    by (auto simp: x bnd_Inr_iff)
  show ?case
  proof (cases "kv = x")
    case True
    with q keep show ?thesis by (simp add: x)
  next
    case False
    with Cons.prems(2) have "kv \<in> set kvs" by simp
    from Cons.IH [OF kept this] show ?thesis .
  qed
qed

lemma insert_items_Inr_prices:
  "insert_items fo data tn ct vs acc = Inr res \<Longrightarrow> kv \<in> set vs \<Longrightarrow>
   \<exists>p. py_getitem (snd kv) ''price'' = Inr p"
proof (induction vs arbitrary: acc)
  case Nil
  then show ?case by simp
next
  case (Cons x vs)
  obtain k v where x: "x = (k, v)" by (cases x)
  obtain s es tot where acc: "acc = (s, es, tot)" by (cases acc)
  from Cons.prems(1) obtain p acc1 where p: "py_getitem v ''price'' = Inr p"
    and rest: "insert_items fo data tn ct vs acc1 = Inr res"
    by (auto simp: x acc bnd_Inr_iff)
  show ?case
  proof (cases "kv = x")
    case True
    with p show ?thesis by (simp add: x)
  next
    case False
    with Cons.prems(2) have "kv \<in> set vs" by simp
    from Cons.IH [OF rest this] show ?thesis .
  qed
qed

lemma missing_price_started:
  "generate_token whole_floats missing_price_order ''2024-01-01T10:00:00''
     ''01 Jan 2024, 10:00 AM'' started =
   (Ok200 \<lparr>r_token_number = 1000, r_timestamp = ''2024-01-01T10:00:00'', r_total = JInt 20,
       r_items = [\<lparr>e_item_name = ''tea'', e_quantity = JInt 2, e_price = JInt 10,
                   e_amount = JInt 20\<rparr>],
       r_customer_id = JStr ''c1'', r_formatted_time = ''01 Jan 2024, 10:00 AM''\<rparr>,
    after_first)"
  by (simp add: started_eq after_first_eq missing_price_order_def eval_simps)

text \<open>
  C10, as stated, fails: a request one of whose entries has no \<open>price\<close>, with the
  quantity 0, and another entry that is complete, is answered 200 and the line of
  the complete entry is stored; the entry without a price is filtered out before
  its price is read.
\<close>

theorem entry_without_price_filtered:
  "py_getitem (JObj [(''quantity'', JInt 0)] :: int json) ''price'' = Inl (KeyError ''price'') \<and>
   py_getitem missing_price_order ''items'' =
     Inr (JObj [(''tea'', JObj [(''quantity'', JInt 2), (''price'', JInt 10)]),
                (''coffee'', JObj [(''quantity'', JInt 0)])]) \<and>
   status (fst (generate_token whole_floats missing_price_order ''2024-01-01T10:00:00''
       ''01 Jan 2024, 10:00 AM'' (init_db whole_floats new_database))) = 200 \<and>
   map o_item_name (orders (snd (generate_token whole_floats missing_price_order
       ''2024-01-01T10:00:00'' ''01 Jan 2024, 10:00 AM'' (init_db whole_floats new_database)))) = [''tea'']"
  using missing_price_started
  by (simp add: started_def after_first_eq missing_price_order_def)

text \<open>
  C10, amended. For a request whose body is a JSON object with the keys
  \<open>customer_id\<close> and \<open>items\<close>, when the value of \<open>items\<close> is not an object, or has
  an entry that is not an object, or an entry with no \<open>quantity\<close>, or an entry whose
  quantity is above 0 and that has no \<open>price\<close>, \<open>generate_token\<close> answers 500 with the
  exception raised and leaves the store as it was. (An entry with no \<open>price\<close> whose
  quantity is not above 0 is filtered out and raises nothing.)
\<close>

theorem malformed_items_answer_500:
  assumes "''customer_id'' \<in> set (map fst body)"
    and "map_of body ''items'' = Some items"
    and "malformed_items fo items"
  shows "\<exists>e. generate_token fo (JObj body) ct ft s = (Err500 e, s)"
proof -
  from assms(2) have "''items'' \<in> set (map fst body)"
    by (auto dest: map_of_SomeD intro: rev_image_eqI)
  with assms(1) have inv: "invalid_order_data fo (JObj body) = Inr False"
    by (auto simp: invalid_order_data_def)
  show ?thesis
  proof (cases "\<exists>its. items = JObj its")
    case False
    then have "py_items items = Inl AttributeError" by (cases items) simp_all
    then show ?thesis by (simp add: generate_token_def inv assms(2))
  next
    case True
    then obtain its where its: "items = JObj its" by blast
    from assms(3) obtain kv where kv: "kv \<in> set its" "malformed_entry fo (snd kv)"
      by (auto simp: its list_ex_iff)
    show ?thesis
    proof (cases "valid_items_of fo its")
      case (Inl e)
      then show ?thesis by (simp add: generate_token_def inv assms(2) its)
    next
      case (Inr vs)
      from valid_items_of_Inr_tests [OF Inr kv(1)] obtain b where
        b: "bnd (py_getitem (snd kv) ''quantity'') (py_gt0 fo) = Inr b"
        by blast
      then obtain details where d: "snd kv = JObj details"
        by (cases "snd kv") simp_all
      from b have "map_of details ''quantity'' \<noteq> None"
        by (auto simp: d split: option.splits)
      with kv(2) have pos: "positive_quantity fo (snd kv)"
        and nop: "map_of details ''price'' = None"
        by (simp_all add: d)
      have vs: "vs = filter (\<lambda>kv. positive_quantity fo (snd kv)) its"
        using valid_items_of_Inr [OF Inr] .
      with kv(1) pos have mem: "kv \<in> set vs" by simp
      then have ne: "vs \<noteq> []" by auto
      have "\<exists>e. insert_items fo (JObj body) (next_token_number s) ct vs (s, [], JInt 0) = Inl e"
      proof (cases "insert_items fo (JObj body) (next_token_number s) ct vs (s, [], JInt 0)")
        case (Inl e)
        then show ?thesis by blast
      next
        case (Inr res)
        from insert_items_Inr_prices [OF Inr mem] nop show ?thesis
          by (simp add: d)
      qed
      then obtain e where "transaction fo (JObj body) ct ft vs s = Inl e"
        by (auto simp: transaction_def Let_def)
      with Inr ne show ?thesis
        by (simp add: generate_token_def inv assms(2) its)
    qed
  qed
qed

theorem malformed_items_answer_500_witness:
  "missing_quantity_order = JObj [(''customer_id'', JStr ''c1''),
     (''items'', JObj [(''tea'', JObj [(''price'', JInt 10)])])] \<and>
   malformed_items whole_floats (JObj [(''tea'', JObj [(''price'', JInt 10)])]) \<and>
   (\<exists>e. generate_token whole_floats missing_quantity_order ''2024-01-01T10:00:00''
       ''01 Jan 2024, 10:00 AM'' after_first = (Err500 e, after_first))"
proof -
  let ?items = "JObj [(''tea'', JObj [(''price'', JInt 10)])] :: int json"
  let ?body = "[(''customer_id'', JStr ''c1''), (''items'', ?items)]"
  have h1: "''customer_id'' \<in> set (map fst ?body)" by simp
  have h2: "map_of ?body ''items'' = Some ?items" by simp
  have h3: "malformed_items whole_floats ?items" by simp
  have eq: "missing_quantity_order = JObj ?body" by (simp add: missing_quantity_order_def)
  from malformed_items_answer_500 [OF h1 h2 h3, of "''2024-01-01T10:00:00''"
      "''01 Jan 2024, 10:00 AM''" after_first]
  have "\<exists>e. generate_token whole_floats missing_quantity_order ''2024-01-01T10:00:00''
       ''01 Jan 2024, 10:00 AM'' after_first = (Err500 e, after_first)"
    unfolding eq .
  with eq h3 show ?thesis by blast
qed

subsection \<open>The listing\<close>

subsubsection \<open>The sort of the rows\<close>






subsubsection \<open>The grouping loop\<close>









subsubsection \<open>The join\<close>







subsubsection \<open>The listing of a store with distinct keys\<close>



subsubsection \<open>What a sequence of orders leaves in the tables\<close>













end
